theory Spec2Isabelle
  imports Complex_Main
begin

section \<open>Retrieval-quality pipeline of the medical RAG backend\<close>

text \<open>
  Python strings are sequences of Unicode code points, and \<open>len\<close>, slicing and the
  regular expressions of the source all count code points.  A string is therefore a list
  of code points.  Floats are modelled by exact rationals, Python integers by \<open>int\<close>.
  An exception is a value: its class name and the text \<open>str(e)\<close> gives.
\<close>

type_synonym pystr = "nat list"

definition ascii :: "string \<Rightarrow> pystr" where
  "ascii s = map of_char s"

datatype exn = Exn (exn_class: string) (exn_str: pystr)

subsection \<open>Evaluation metrics (\<open>api/services/evaluation_service.py\<close>)\<close>

text \<open>\<open>EvaluationService.calculate_metrics\<close>, with its two early returns.\<close>

definition calculate_metrics :: "pystr list \<Rightarrow> pystr list \<Rightarrow> rat \<times> rat \<times> rat" where
  "calculate_metrics retrieved_docs ground_truth_docs =
     (if retrieved_docs = [] then (0, 0, 0)
      else if ground_truth_docs = [] then (0, 0, 0)
      else
        let relevant_retrieved = set retrieved_docs \<inter> set ground_truth_docs;
            relevant_count = card relevant_retrieved;
            precision = (if retrieved_docs \<noteq> []
                         then of_nat relevant_count / of_nat (length retrieved_docs) else 0);
            recall = (if ground_truth_docs \<noteq> []
                      then of_nat relevant_count / of_nat (length ground_truth_docs) else 0);
            f1_score = (if precision + recall = 0 then 0
                        else 2 * (precision * recall) / (precision + recall))
        in (precision, recall, f1_score))"

text \<open>The three metrics as the specification words them.\<close>

definition spec_precision :: "pystr list \<Rightarrow> pystr list \<Rightarrow> rat" where
  "spec_precision retrieved groundTruth =
     (if retrieved = [] then 0
      else of_nat (card (set retrieved \<inter> set groundTruth)) / of_nat (length retrieved))"

definition spec_recall :: "pystr list \<Rightarrow> pystr list \<Rightarrow> rat" where
  "spec_recall retrieved groundTruth =
     (if groundTruth = [] then 0
      else of_nat (card (set retrieved \<inter> set groundTruth)) / of_nat (length groundTruth))"

definition spec_f1 :: "rat \<Rightarrow> rat \<Rightarrow> rat" where
  "spec_f1 p r = (if p + r = 0 then 0 else 2 * p * r / (p + r))"

subsection \<open>The AI-assisted audit (\<open>api/services/evaluation_service.py\<close>)\<close>

text \<open>
  The values \<open>json.loads\<close> produces.  The parser itself belongs to the Python library;
  the model takes it as a parameter \<open>loads\<close> that returns a value or raises.
\<close>

datatype json =
    JNull
  | JBool bool
  | JNum rat
  | JStr pystr
  | JArr "json list"
  | JObj "(pystr \<times> json) list"

type_synonym json_loads = "pystr \<Rightarrow> exn + json"

text \<open>
  The text generator handed to \<open>EvaluationService\<close> is any Python object; the audit
  looks up its attribute \<open>_generate_raw_answer\<close> and calls it with the prompt.  An
  object is modelled by its class name and by that attribute, if it has one.
\<close>

record llm_object =
  class_name :: string
  generate_raw_answer :: "(pystr \<Rightarrow> exn + pystr) option"

text \<open>
  The bundled \<open>LLMService\<close> (\<open>api/services/llm_service.py\<close>) defines \<open>__init__\<close>,
  \<open>generate_answer\<close>, \<open>_generate_rule_based_answer\<close> and \<open>calculate_confidence\<close>,
  and its only instance attribute is \<open>prompt_template\<close>.
\<close>

definition LLMService :: llm_object where
  "LLMService = \<lparr>class_name = ''LLMService'', generate_raw_answer = None\<rparr>"

text \<open>
  Attribute lookup followed by the call: a missing attribute raises \<open>AttributeError\<close>,
  whose text quotes the class and the attribute (code point 39 is the single quote).
\<close>

definition no_attribute :: "string \<Rightarrow> string \<Rightarrow> pystr" where
  "no_attribute cls attr =
     [39] @ ascii cls @ [39] @ ascii '' object has no attribute '' @ [39] @ ascii attr @ [39]"

definition call_generate_raw_answer :: "llm_object \<Rightarrow> pystr \<Rightarrow> exn + pystr" where
  "call_generate_raw_answer llm prompt =
     (case generate_raw_answer llm of
        None \<Rightarrow> Inl (Exn ''AttributeError''
                 (no_attribute (class_name llm) ''_generate_raw_answer''))
      | Some method \<Rightarrow> method prompt)"

text \<open>\<open>str(n)\<close> for a non-negative integer.\<close>

fun str_of_nat :: "nat \<Rightarrow> pystr" where
  "str_of_nat n = (if n < 10 then [48 + n] else str_of_nat (n div 10) @ [48 + n mod 10])"

declare str_of_nat.simps [simp del]

text \<open>The pieces of the prompt template of \<open>_build_evaluation_prompt\<close>, as code points.\<close>

definition prompt_head :: pystr where
  \<comment> \<open>the template up to the query\<close>
  "prompt_head =
      [20320, 26159, 19968, 20010, 19987, 19994, 30340, 20449, 24687, 26816, 32034,
       35780, 20272, 19987, 23478, 12290, 35831, 35780, 20272, 20197, 19979, 26816,
       32034, 32467, 26524, 30340, 36136, 37327, 12290, 10, 10, 42, 42, 26597, 35810,
       38382, 39064, 65306, 42, 42, 10]"

definition prompt_retrieved_open :: pystr where
  \<comment> \<open>between the query and the number of retrieved documents\<close>
  "prompt_retrieved_open =
      [10, 10, 42, 42, 26816, 32034, 21040, 30340, 25991, 26723, 65288]"

definition prompt_count_close :: pystr where
  \<comment> \<open>after the number of retrieved documents\<close>
  "prompt_count_close =
      [32, 20010, 65289, 65306, 42, 42, 10]"

definition prompt_doc_open :: pystr where
  \<comment> \<open>opening of a numbered document line\<close>
  "prompt_doc_open =
      [10, 91, 25991, 26723, 32]"

definition prompt_doc_mid :: pystr where
  \<comment> \<open>between the number and the document\<close>
  "prompt_doc_mid =
      [93, 32]"

definition prompt_truth_open :: pystr where
  \<comment> \<open>before the number of ground-truth documents\<close>
  "prompt_truth_open =
      [10, 42, 42, 30495, 23454, 30456, 20851, 25991, 26723, 65288]"

definition prompt_truth_close :: pystr where
  \<comment> \<open>after the number of ground-truth documents\<close>
  "prompt_truth_close =
      [32, 20010, 65289, 65306, 42, 42, 10]"

definition prompt_instructions :: pystr where
  \<comment> \<open>the fixed instructions and JSON example closing the prompt\<close>
  "prompt_instructions =
      [10, 35831, 20174, 20197, 19979, 20960, 20010, 32500, 24230, 36827, 34892, 35780,
       20272, 65306, 10, 10, 49, 46, 32, 42, 42, 30456, 20851, 24615, 26631, 27880, 42,
       42, 65306, 23545, 20110, 27599, 20010, 26816, 32034, 21040, 30340, 25991, 26723,
       65292, 21028, 26029, 23427, 26159, 21542, 19982, 26597, 35810, 30456, 20851,
       65288, 116, 114, 117, 101, 47, 102, 97, 108, 115, 101, 65289, 10, 50, 46, 32,
       42, 42, 24635, 20307, 35780, 20998, 42, 42, 65306, 26681, 25454, 26816, 32034,
       36136, 37327, 32473, 20986, 35780, 20998, 65288, 20248, 31168, 47, 33391, 22909,
       47, 20013, 31561, 47, 36739, 24046, 47, 24456, 24046, 65289, 10, 51, 46, 32, 42,
       42, 35814, 32454, 35780, 35770, 42, 42, 65306, 35828, 26126, 35780, 20998,
       29702, 30001, 65292, 25351, 20986, 20248, 28857, 21644, 19981, 36275, 10, 10,
       35831, 25353, 20197, 19979, 32, 74, 83, 79, 78, 32, 26684, 24335, 36755, 20986,
       65288, 21482, 36820, 22238, 32, 74, 83, 79, 78, 65292, 19981, 35201, 20854,
       20182, 20869, 23481, 65289, 65306, 10, 123, 10, 32, 32, 34, 114, 101, 108, 101,
       118, 97, 110, 99, 101, 95, 108, 97, 98, 101, 108, 115, 34, 58, 32, 123, 10, 32,
       32, 32, 32, 34, 25991, 26723, 32, 49, 34, 58, 32, 116, 114, 117, 101, 44, 10,
       32, 32, 32, 32, 34, 25991, 26723, 32, 50, 34, 58, 32, 102, 97, 108, 115, 101,
       44, 10, 32, 32, 32, 32, 46, 46, 46, 10, 32, 32, 125, 44, 10, 32, 32, 34, 114,
       97, 116, 105, 110, 103, 34, 58, 32, 34, 20248, 31168, 34, 44, 10, 32, 32, 34,
       99, 111, 109, 109, 101, 110, 116, 34, 58, 32, 34, 35814, 32454, 35780, 35770,
       20869, 23481, 46, 46, 46, 34, 10, 125, 10]"

text \<open>The loop \<open>for i, doc in enumerate(docs, 1)\<close> appending one line per document.\<close>

fun enumerate_docs :: "nat \<Rightarrow> pystr list \<Rightarrow> pystr" where
  "enumerate_docs i [] = []"
| "enumerate_docs i (doc # docs) =
     prompt_doc_open @ str_of_nat i @ prompt_doc_mid @ doc @ [10] @ enumerate_docs (Suc i) docs"

definition build_evaluation_prompt :: "pystr \<Rightarrow> pystr list \<Rightarrow> pystr list \<Rightarrow> pystr" where
  "build_evaluation_prompt query retrieved_docs ground_truth_docs =
     prompt_head @ query @ prompt_retrieved_open @ str_of_nat (length retrieved_docs)
       @ prompt_count_close @ enumerate_docs 1 retrieved_docs
       @ prompt_truth_open @ str_of_nat (length ground_truth_docs) @ prompt_truth_close
       @ enumerate_docs 1 ground_truth_docs @ prompt_instructions"

text \<open>
  \<open>re.search(r'\{.*\}', response, re.DOTALL)\<close>: the match starts at the first opening
  brace and, the star being greedy and the dot matching newlines, ends at the last closing
  brace after it.  There is no match when no closing brace follows the first opening one.
\<close>

definition search_json_object :: "pystr \<Rightarrow> pystr option" where
  "search_json_object response =
     (case dropWhile (\<lambda>c. c \<noteq> 123) response of
        [] \<Rightarrow> None
      | brace # after \<Rightarrow>
          (case dropWhile (\<lambda>c. c \<noteq> 125) (rev after) of
             [] \<Rightarrow> None
           | closing \<Rightarrow> Some (brace # rev closing)))"

text \<open>\<open>data.get(key, default)\<close>; on a value that is not a dict the attribute is missing.\<close>

definition json_get :: "json \<Rightarrow> pystr \<Rightarrow> json \<Rightarrow> exn + json" where
  "json_get data key dflt =
     (case data of
        JObj items \<Rightarrow> Inr (case map_of items key of None \<Rightarrow> dflt | Some v \<Rightarrow> v)
      | _ \<Rightarrow> Inl (Exn ''AttributeError'' (no_attribute ''object'' ''get'')))"

definition not_available :: pystr where
  "not_available = ascii ''N/A''"

definition msg_bad_format :: pystr where
  \<comment> \<open>the comment returned when the response holds no JSON object\<close>
  "msg_bad_format = [65, 73, 32, 36820, 22238, 26684, 24335, 38169, 35823]"

definition msg_parse_failed :: pystr where
  \<comment> \<open>prefix of the comment returned when parsing raised\<close>
  "msg_parse_failed = [35299, 26512, 22833, 36133, 58, 32]"

definition msg_audit_failed :: pystr where
  \<comment> \<open>prefix of the comment returned when the audit raised\<close>
  "msg_audit_failed = [65, 73, 32, 35780, 20272, 22833, 36133, 58, 32]"

type_synonym ai_verdict = "json \<times> json \<times> json"

text \<open>The body of the \<open>try\<close> block of \<open>_parse_ai_response\<close>.\<close>

definition parse_ai_response_body :: "json_loads \<Rightarrow> pystr \<Rightarrow> exn + ai_verdict" where
  "parse_ai_response_body loads response =
     (case search_json_object response of
        None \<Rightarrow> Inr (JStr not_available, JStr msg_bad_format, JObj [])
      | Some matched \<Rightarrow>
          (case loads matched of
             Inl e \<Rightarrow> Inl e
           | Inr data \<Rightarrow>
               (case json_get data (ascii ''rating'') (JStr not_available) of
                  Inl e \<Rightarrow> Inl e
                | Inr rating \<Rightarrow>
                    (case json_get data (ascii ''comment'') (JStr []) of
                       Inl e \<Rightarrow> Inl e
                     | Inr comment \<Rightarrow>
                         (case json_get data (ascii ''relevance_labels'') (JObj []) of
                            Inl e \<Rightarrow> Inl e
                          | Inr relevance_labels \<Rightarrow>
                              Inr (rating, comment, relevance_labels))))))"

text \<open>\<open>_parse_ai_response\<close>: the body under its \<open>except Exception\<close> handler.\<close>

definition parse_ai_response :: "json_loads \<Rightarrow> pystr \<Rightarrow> exn + ai_verdict" where
  "parse_ai_response loads response =
     (case parse_ai_response_body loads response of
        Inl e \<Rightarrow> Inr (JStr not_available, JStr (msg_parse_failed @ exn_str e), JObj [])
      | Inr verdict \<Rightarrow> Inr verdict)"

text \<open>The body of the \<open>try\<close> block of \<open>_ai_evaluate\<close>, and the function itself.\<close>

definition ai_evaluate_body ::
  "llm_object \<Rightarrow> json_loads \<Rightarrow> pystr \<Rightarrow> pystr list \<Rightarrow> pystr list \<Rightarrow> exn + ai_verdict" where
  "ai_evaluate_body llm loads query retrieved_docs ground_truth_docs =
     (let prompt = build_evaluation_prompt query retrieved_docs ground_truth_docs
      in case call_generate_raw_answer llm prompt of
           Inl e \<Rightarrow> Inl e
         | Inr response \<Rightarrow> parse_ai_response loads response)"

definition ai_evaluate ::
  "llm_object \<Rightarrow> json_loads \<Rightarrow> pystr \<Rightarrow> pystr list \<Rightarrow> pystr list \<Rightarrow> exn + ai_verdict" where
  "ai_evaluate llm loads query retrieved_docs ground_truth_docs =
     (case ai_evaluate_body llm loads query retrieved_docs ground_truth_docs of
        Inl e \<Rightarrow> Inr (JStr not_available, JStr (msg_audit_failed @ exn_str e), JObj [])
      | Inr verdict \<Rightarrow> Inr verdict)"

text \<open>
  \<open>EvaluationResult\<close>.  The lists \<open>relevant_retrieved\<close> and \<open>missed_docs\<close> come from
  Python sets, whose iteration order is not fixed: the model keeps them as sets.
\<close>

record evaluation_result =
  query :: pystr
  retrieved_docs :: "pystr list"
  ground_truth_docs :: "pystr list"
  relevant_retrieved :: "pystr set"
  missed_docs :: "pystr set"
  precision :: rat
  recall :: rat
  f1_score :: rat
  ai_rating :: "json option"
  ai_comment :: "json option"
  ai_relevance_labels :: "json option"

text \<open>
  \<open>EvaluationService.evaluate_retrieval\<close>; \<open>llm_service\<close> is the constructor argument,
  \<open>None\<close> by default.
\<close>

definition evaluate_retrieval ::
  "llm_object option \<Rightarrow> json_loads \<Rightarrow> pystr \<Rightarrow> pystr list \<Rightarrow> pystr list \<Rightarrow> bool
     \<Rightarrow> exn + evaluation_result" where
  "evaluate_retrieval llm_service loads q retrieved truth use_ai_rating =
     (case calculate_metrics retrieved truth of
        (p, r, f1) \<Rightarrow>
          let result = \<lparr>query = q, retrieved_docs = retrieved, ground_truth_docs = truth,
                         relevant_retrieved = set retrieved \<inter> set truth,
                         missed_docs = set truth - set retrieved,
                         precision = p, recall = r, f1_score = f1,
                         ai_rating = None, ai_comment = None, ai_relevance_labels = None\<rparr>
          in (case llm_service of
                Some llm \<Rightarrow>
                  if use_ai_rating
                  then (case ai_evaluate llm loads q retrieved truth of
                          Inl e \<Rightarrow> Inl e
                        | Inr (rating, comment, labels) \<Rightarrow>
                            Inr (result\<lparr>ai_rating := Some rating, ai_comment := Some comment,
                                        ai_relevance_labels := Some labels\<rparr>))
                  else Inr result
              | None \<Rightarrow> Inr result))"

subsection \<open>Confidence (\<open>api/services/llm_service.py\<close>)\<close>

text \<open>
  \<open>round(x, ndigits)\<close> on the exact value: to the nearest multiple of \<open>10\<^sup>-\<^sup>n\<close>, a tie
  going to the even neighbour.
\<close>

definition round_half_even :: "rat \<Rightarrow> int" where
  "round_half_even x =
     (let f = \<lfloor>x\<rfloor>; d = x - of_int f
      in if d < 1 / 2 then f else if 1 / 2 < d then f + 1 else if even f then f else f + 1)"

definition py_round :: "rat \<Rightarrow> nat \<Rightarrow> rat" where
  "py_round x ndigits = of_int (round_half_even (x * 10 ^ ndigits)) / 10 ^ ndigits"

text \<open>\<open>min(distances)\<close> of a non-empty list: a left-to-right scan.\<close>

definition py_min :: "rat list \<Rightarrow> rat" where
  "py_min xs = fold min (tl xs) (hd xs)"

text \<open>\<open>LLMService.calculate_confidence\<close>; the query and the documents are not used.\<close>

definition calculate_confidence :: "rat list \<Rightarrow> rat" where
  "calculate_confidence distances =
     (if distances = [] then 0
      else
        let min_distance = py_min distances;
            similarity = max 0 (1 - min_distance / 2);
            high_quality_matches = length (filter (\<lambda>d. d < 1 / 2) distances);
            similarity' = (if 2 \<le> high_quality_matches then min 1 (similarity + 1 / 10)
                           else similarity)
        in py_round similarity' 2)"

text \<open>The confidence as the specification words it.\<close>

definition clamp :: "rat \<Rightarrow> rat \<Rightarrow> rat \<Rightarrow> rat" where
  "clamp x lo hi = max lo (min hi x)"

definition spec_bonus :: "rat list \<Rightarrow> rat" where
  "spec_bonus distances = (if 2 \<le> length (filter (\<lambda>d. d < 1 / 2) distances) then 1 / 10 else 0)"

definition spec_confidence :: "rat list \<Rightarrow> rat" where
  "spec_confidence distances =
     py_round (min 1 (clamp (1 - Min (set distances) / 2) 0 1 + spec_bonus distances)) 2"

subsection \<open>Filtering and citations (\<open>api/routers/medical.py\<close>, \<open>medical_chat\<close>)\<close>

text \<open>
  A metadata dictionary maps keys to strings; \<open>meta.get(key, default)\<close> is \<open>dict_get\<close>.
  Of the result of \<open>chroma_service.search\<close> the handler reads the row of the one query:
  \<open>results['ids'][0]\<close>, \<open>results['documents'][0]\<close>, \<open>results['metadatas'][0]\<close> and
  \<open>results['distances'][0]\<close>.
\<close>

type_synonym metadata = "pystr \<rightharpoonup> pystr"

definition dict_get :: "metadata \<Rightarrow> pystr \<Rightarrow> pystr \<Rightarrow> pystr" where
  "dict_get meta key dflt = (case meta key of None \<Rightarrow> dflt | Some v \<Rightarrow> v)"

record search_results =
  ids :: "pystr list"
  documents :: "pystr list"
  metadatas :: "metadata list"
  distances :: "rat list"

record reference =
  title :: pystr
  author :: pystr
  department :: pystr
  evidence_level :: pystr
  url :: "pystr option"

record chat_response =
  answer :: pystr
  references :: "reference list"
  confidence :: rat
  similar_queries :: "pystr list"

text \<open>
  What the handler takes from outside: the similarity threshold of the settings, the
  outcome of the index search, the outcome of encoding the query (its value only goes
  into the debugging details), the answer composed from the context documents, and the
  suggested queries.
\<close>

record chat_env =
  similarity_threshold :: rat
  search :: "exn + search_results option"
  encode_single :: "exn + unit"
  generate_answer :: "pystr list \<Rightarrow> pystr"
  generate_similar_queries :: "pystr list \<Rightarrow> pystr list"

text \<open>
  The loop over \<open>zip(documents, metadatas, distances)\<close> that fills \<open>filtered_docs\<close>,
  \<open>filtered_metas\<close> and \<open>filtered_dists\<close>; \<open>zip\<close> stops at the shortest list.
\<close>

fun filter_hits ::
  "rat \<Rightarrow> pystr list \<Rightarrow> metadata list \<Rightarrow> rat list \<Rightarrow> pystr list \<times> metadata list \<times> rat list" where
  "filter_hits threshold (doc # docs) (meta # metas) (distance # dists) =
     (case filter_hits threshold docs metas dists of
        (filtered_docs, filtered_metas, filtered_dists) \<Rightarrow>
          let similarity = 1 - distance
          in if threshold \<le> similarity
             then (doc # filtered_docs, meta # filtered_metas, distance # filtered_dists)
             else (filtered_docs, filtered_metas, filtered_dists))"
| "filter_hits threshold _ _ _ = ([], [], [])"

definition key_id :: pystr where
  "key_id = ascii ''id''"

definition key_department :: pystr where
  "key_department = ascii ''department''"

definition make_reference :: "pystr \<Rightarrow> metadata \<Rightarrow> reference" where
  "make_reference doc_id meta =
     \<lparr>title = [25991, 26723, 32] @ doc_id,
      author = [21307, 30103, 30693, 35782, 24211],
      department = dict_get meta key_department [26410, 30693],
      evidence_level = ascii ''A'',
      url = None\<rparr>"

text \<open>
  The loop over \<open>filtered_metas\<close> that builds \<open>references\<close>, with the set
  \<open>unique_docs\<close> of the ids seen so far.
\<close>

fun collect_references :: "metadata list \<Rightarrow> pystr set \<Rightarrow> reference list \<Rightarrow> reference list" where
  "collect_references [] unique_docs refs = refs"
| "collect_references (meta # metas) unique_docs refs =
     (let doc_id = dict_get meta key_id []
      in if doc_id \<noteq> [] \<and> doc_id \<notin> unique_docs
         then collect_references metas (insert doc_id unique_docs)
                (refs @ [make_reference doc_id meta])
         else collect_references metas unique_docs refs)"

definition msg_no_documents :: pystr where
  \<comment> \<open>the answer when the search returned nothing\<close>
  "msg_no_documents =
     [25265, 27465, 65292, 22312, 24403, 21069, 30693, 35782, 24211, 20013, 27809, 26377,
      25214, 21040, 30456, 20851, 30340, 21307, 30103, 24314, 35758, 12290, 24314, 35758,
      24744, 21672, 35810, 19987, 19994, 21307, 29983, 25110, 25552, 20379, 26356, 20855,
      20307, 30340, 38382, 39064, 12290]"

definition msg_no_match :: pystr where
  \<comment> \<open>the answer when no hit passed the threshold\<close>
  "msg_no_match =
     [25265, 27465, 65292, 27809, 26377, 25214, 21040, 36275, 22815, 30456, 20851, 30340,
      21307, 30103, 24314, 35758, 12290, 24314, 35758, 24744, 23581, 35797, 20854, 20182,
      20851, 38190, 35789, 25110, 21672, 35810, 19987, 19994, 21307, 29983, 12290]"

definition msg_chat_failed :: pystr where
  \<comment> \<open>prefix of the detail of the HTTP 500 error\<close>
  "msg_chat_failed = [38382, 31572, 22833, 36133, 58, 32]"

definition http_500 :: "exn \<Rightarrow> exn" where
  "http_500 e = Exn ''HTTPException'' (msg_chat_failed @ exn_str e)"

text \<open>
  \<open>medical_chat\<close> from the search on.  \<open>max_results\<close> is the request option (between 1
  and 20 by validation, 5 without options).  The debugging details index \<open>ids\<close>,
  \<open>metadatas\<close> and \<open>distances\<close> by every position of \<open>documents\<close>, which raises
  \<open>IndexError\<close> on a shorter list; any exception leaves the handler as an HTTP 500 error.
\<close>

definition medical_chat :: "chat_env \<Rightarrow> nat \<Rightarrow> exn + chat_response" where
  "medical_chat env max_results =
     (case search env of
        Inl e \<Rightarrow> Inl (http_500 e)
      | Inr None \<Rightarrow>
          Inr \<lparr>answer = msg_no_documents, references = [], confidence = 0, similar_queries = []\<rparr>
      | Inr (Some results) \<Rightarrow>
          if documents results = []
          then Inr \<lparr>answer = msg_no_documents, references = [], confidence = 0,
                    similar_queries = []\<rparr>
          else
            (case filter_hits (similarity_threshold env)
                    (documents results) (metadatas results) (distances results) of
               (filtered_docs, filtered_metas, filtered_dists) \<Rightarrow>
                 if filtered_docs = []
                 then Inr \<lparr>answer = msg_no_match, references = [], confidence = 0,
                           similar_queries = []\<rparr>
                 else
                   (case encode_single env of
                      Inl e \<Rightarrow> Inl (http_500 e)
                    | Inr _ \<Rightarrow>
                        if length (ids results) < length (documents results)
                           \<or> length (metadatas results) < length (documents results)
                           \<or> length (distances results) < length (documents results)
                        then Inl (http_500 (Exn ''IndexError'' (ascii ''list index out of range'')))
                        else
                          let references = collect_references filtered_metas {} [];
                              confidence = calculate_confidence filtered_dists
                          in Inr \<lparr>answer = generate_answer env filtered_docs,
                                   references = take max_results references,
                                   confidence = confidence,
                                   similar_queries = generate_similar_queries env filtered_docs\<rparr>)))"


subsection \<open>Character classes and regular expressions of the Python runtime\<close>

text \<open>
  \<open>str.isspace\<close>, which is also the class \<open>\s\<close> of \<open>re\<close> on \<open>str\<close> patterns and
  what \<open>str.strip()\<close> removes.
\<close>

definition is_space :: "nat \<Rightarrow> bool" where
  "is_space c \<longleftrightarrow>
     (9 \<le> c \<and> c \<le> 13) \<or> (28 \<le> c \<and> c \<le> 32) \<or> c = 133 \<or> c = 160 \<or> c = 5760
     \<or> (8192 \<le> c \<and> c \<le> 8202) \<or> c = 8232 \<or> c = 8233 \<or> c = 8239 \<or> c = 8287 \<or> c = 12288"

text \<open>
  The class \<open>\d\<close>: the decimal digits of Unicode (category Nd, Unicode 14), which come
  in runs of ten; the list holds the code point of the zero of every run.
\<close>

definition decimal_zeros :: "nat list" where
  "decimal_zeros =
     [48, 1632, 1776, 1984, 2406, 2534, 2662, 2790, 2918, 3046, 3174, 3302, 3430, 3558,
      3664, 3792, 3872, 4160, 4240, 6112, 6160, 6470, 6608, 6784, 6800, 6992, 7088, 7232,
      7248, 42528, 43216, 43264, 43472, 43504, 43600, 44016, 65296, 66720, 68912, 69734,
      69872, 69942, 70096, 70384, 70736, 70864, 71248, 71360, 71472, 71904, 72016, 72784,
      73040, 73120, 92768, 92864, 93008, 120782, 120792, 120802, 120812, 120822, 123200,
      123632, 125264, 130032]"

definition is_digit :: "nat \<Rightarrow> bool" where
  "is_digit c = list_ex (\<lambda>z. z \<le> c \<and> c < z + 10) decimal_zeros"

definition lstrip :: "pystr \<Rightarrow> pystr" where
  "lstrip s = dropWhile is_space s"

definition rstrip :: "pystr \<Rightarrow> pystr" where
  "rstrip s = rev (dropWhile is_space (rev s))"

definition strip :: "pystr \<Rightarrow> pystr" where
  "strip s = rstrip (lstrip s)"

text \<open>
  A pattern is modelled by its matcher: given the text from some position on, the length
  of the match starting there, if there is one.  None of the patterns below looks behind
  or matches the empty string.  \<open>re.sub\<close> replaces the leftmost match and goes on after
  it; \<open>re.split\<close> cuts the text at every match and, when the pattern is one capturing
  group, puts the matched text between the pieces.
\<close>

type_synonym matcher = "pystr \<Rightarrow> nat option"

fun re_sub :: "matcher \<Rightarrow> pystr \<Rightarrow> pystr \<Rightarrow> pystr" where
  "re_sub m repl [] = []"
| "re_sub m repl (c # cs) =
     (case m (c # cs) of
        Some (Suc k) \<Rightarrow> repl @ re_sub m repl (drop k cs)
      | _ \<Rightarrow> c # re_sub m repl cs)"

fun re_split :: "matcher \<Rightarrow> bool \<Rightarrow> pystr \<Rightarrow> pystr \<Rightarrow> pystr list" where
  "re_split m capture piece [] = [piece]"
| "re_split m capture piece (c # cs) =
     (case m (c # cs) of
        Some (Suc k) \<Rightarrow>
          piece # (if capture then [take (Suc k) (c # cs)] else [])
            @ re_split m capture [] (drop k cs)
      | _ \<Rightarrow> re_split m capture (piece @ [c]) cs)"

text \<open>Whether the pattern matches anywhere in the text (\<open>re.search\<close> finds a match).\<close>

fun re_contains :: "matcher \<Rightarrow> pystr \<Rightarrow> bool" where
  "re_contains m [] = False"
| "re_contains m (c # cs) =
     (case m (c # cs) of Some (Suc k) \<Rightarrow> True | _ \<Rightarrow> re_contains m cs)"

text \<open>A run of at least \<open>n\<close> characters of a class, taken greedily: \<open>[...]{n,}\<close>.\<close>

definition match_run :: "(nat \<Rightarrow> bool) \<Rightarrow> nat \<Rightarrow> matcher" where
  "match_run cls n text =
     (let run = length (takeWhile cls text) in if n \<le> run \<and> 0 < run then Some run else None)"

definition match_blanks :: matcher where
  \<comment> \<open>\<open>[ \t]+\<close>\<close>
  "match_blanks = match_run (\<lambda>c. c = 32 \<or> c = 9) 1"

definition match_newlines3 :: matcher where
  \<comment> \<open>\<open>\n{3,}\<close>\<close>
  "match_newlines3 = match_run (\<lambda>c. c = 10) 3"

definition match_paragraph_break :: matcher where
  \<comment> \<open>\<open>\n{2,}\<close>\<close>
  "match_paragraph_break = match_run (\<lambda>c. c = 10) 2"

text \<open>
  \<open>\n\s*\d+\s*\n\<close>: a newline, the whole run of white space after it, the whole run of
  digits (at least one), and white space up to its last newline.  White space and digits
  being disjoint, backtracking into the first two runs finds nothing else.
\<close>

definition match_page_number :: matcher where
  "match_page_number text =
     (case text of
        [] \<Rightarrow> None
      | c # cs \<Rightarrow>
          if c \<noteq> 10 then None
          else
            let space1 = takeWhile is_space cs;
                digits = takeWhile is_digit (dropWhile is_space cs);
                space2 = takeWhile is_space (dropWhile is_digit (dropWhile is_space cs));
                after_last_newline = takeWhile (\<lambda>c. c \<noteq> 10) (rev space2)
            in if digits \<noteq> [] \<and> 10 \<in> set space2
               then Some (1 + length space1 + length digits
                            + (length space2 - length after_last_newline))
               else None)"

definition is_terminator :: "nat \<Rightarrow> bool" where
  \<comment> \<open>the ideographic full stop, the fullwidth exclamation and question marks, newline\<close>
  "is_terminator c \<longleftrightarrow> c = 12290 \<or> c = 65281 \<or> c = 65311 \<or> c = 10"

definition match_terminator :: matcher where
  \<comment> \<open>the group of \<open>re.split\<close> in \<open>_split_long_paragraph\<close>\<close>
  "match_terminator text =
     (case text of [] \<Rightarrow> None | c # cs \<Rightarrow> if is_terminator c then Some 1 else None)"

subsection \<open>The text splitter (\<open>api/services/text_splitter.py\<close>)\<close>

record splitter =
  chunk_size :: int
  chunk_overlap :: int

text \<open>\<open>get_text_splitter\<close> and the defaults of the constructor.\<close>

definition default_splitter :: splitter where
  "default_splitter = \<lparr>chunk_size = 500, chunk_overlap = 50\<rparr>"

text \<open>\<open>_preprocess_text\<close>: three substitutions, the removal of carriage returns, \<open>strip\<close>.\<close>

definition preprocess_text :: "pystr \<Rightarrow> pystr" where
  "preprocess_text text =
     (let text1 = re_sub match_blanks [32] text;
          text2 = re_sub match_newlines3 [10, 10] text1;
          text3 = filter (\<lambda>c. c \<noteq> 13) text2;
          text4 = re_sub match_page_number [10] text3
      in strip text4)"

text \<open>
  \<open>_is_heading\<close>: \<open>re.match\<close> of five patterns on the stripped text.  In each pattern
  the class of a greedy run is disjoint from what has to follow it, so the run is taken
  whole.  \<open>$\<close> is the end of the text or the position before a final newline.
\<close>

definition is_chinese_numeral :: "nat \<Rightarrow> bool" where
  "is_chinese_numeral c \<longleftrightarrow>
     c \<in> {19968, 20108, 19977, 22235, 20116, 20845, 19971, 20843, 20061, 21313}"

definition is_upper :: "nat \<Rightarrow> bool" where
  "is_upper c \<longleftrightarrow> 65 \<le> c \<and> c \<le> 90"

definition is_lower :: "nat \<Rightarrow> bool" where
  "is_lower c \<longleftrightarrow> 97 \<le> c \<and> c \<le> 122"

definition run_then :: "(nat \<Rightarrow> bool) \<Rightarrow> (nat \<Rightarrow> bool) \<Rightarrow> pystr \<Rightarrow> bool" where
  \<comment> \<open>\<open>[cls]+[next]\<close> at the start of the text\<close>
  "run_then cls next text \<longleftrightarrow>
     takeWhile cls text \<noteq> []
     \<and> (case dropWhile cls text of [] \<Rightarrow> False | c # _ \<Rightarrow> next c)"

definition heading_chapter :: "pystr \<Rightarrow> bool" where
  \<comment> \<open>pattern 1: the ordinal prefix, numerals or digits, then chapter, section or part\<close>
  "heading_chapter text \<longleftrightarrow>
     (case text of
        [] \<Rightarrow> False
      | c # cs \<Rightarrow> c = 31532
          \<and> run_then (\<lambda>x. is_chinese_numeral x \<or> is_digit x)
                (\<lambda>x. x = 31456 \<or> x = 33410 \<or> x = 31687) cs)"

definition heading_numeral :: "pystr \<Rightarrow> bool" where
  \<comment> \<open>pattern 2: Chinese numerals and the ideographic comma\<close>
  "heading_numeral text \<longleftrightarrow> run_then is_chinese_numeral (\<lambda>x. x = 12289) text"

definition heading_number :: "pystr \<Rightarrow> bool" where
  \<comment> \<open>pattern 3: digits and a full stop\<close>
  "heading_number text \<longleftrightarrow> run_then is_digit (\<lambda>x. x = 46) text"

definition heading_upper :: "pystr \<Rightarrow> bool" where
  \<comment> \<open>pattern 4: \<open>^[A-Z][A-Z\s]+$\<close>\<close>
  "heading_upper text \<longleftrightarrow>
     (case text of
        [] \<Rightarrow> False
      | c # cs \<Rightarrow> is_upper c \<and> cs \<noteq> [] \<and> list_all (\<lambda>x. is_upper x \<or> is_space x) cs)"

definition heading_bracket :: "pystr \<Rightarrow> bool" where
  \<comment> \<open>pattern 5: a bracketed title, the dot matching anything but a newline\<close>
  "heading_bracket text \<longleftrightarrow>
     (case text of
        [] \<Rightarrow> False
      | c # cs \<Rightarrow> c = 12304
          \<and> (let body = (if cs \<noteq> [] \<and> last cs = 10 then butlast cs else cs)
             in 2 \<le> length body \<and> last body = 12305 \<and> 10 \<notin> set (butlast body)))"

definition is_heading :: "pystr \<Rightarrow> bool" where
  "is_heading text \<longleftrightarrow>
     (let t = strip text
      in heading_chapter t \<or> heading_numeral t \<or> heading_number t \<or> heading_upper t
         \<or> heading_bracket t)"

text \<open>\<open>_is_list_item\<close>: three patterns, each \<open>^\s*\<close>, a marker and \<open>\s+\<close>.\<close>

definition starts_with_space :: "pystr \<Rightarrow> bool" where
  "starts_with_space text \<longleftrightarrow> (case text of [] \<Rightarrow> False | c # _ \<Rightarrow> is_space c)"

definition list_bullet :: "pystr \<Rightarrow> bool" where
  "list_bullet text \<longleftrightarrow>
     (case dropWhile is_space text of
        [] \<Rightarrow> False
      | c # cs \<Rightarrow> (c = 8226 \<or> c = 183 \<or> c = 45) \<and> starts_with_space cs)"

definition list_numbered :: "pystr \<Rightarrow> bool" where
  "list_numbered text \<longleftrightarrow>
     (let t = dropWhile is_space text
      in takeWhile is_digit t \<noteq> []
         \<and> (case dropWhile is_digit t of
               [] \<Rightarrow> False
             | c # cs \<Rightarrow> (c = 46 \<or> c = 41) \<and> starts_with_space cs))"

definition list_lettered :: "pystr \<Rightarrow> bool" where
  "list_lettered text \<longleftrightarrow>
     (case dropWhile is_space text of
        c # p # cs \<Rightarrow> is_lower c \<and> (p = 46 \<or> p = 41) \<and> starts_with_space cs
      | _ \<Rightarrow> False)"

definition is_list_item :: "pystr \<Rightarrow> bool" where
  "is_list_item text \<longleftrightarrow>
     (let t = strip text in list_bullet t \<or> list_numbered t \<or> list_lettered t)"

text \<open>
  \<open>_merge_short_paragraphs\<close>: the loop over the paragraphs after the first, with the
  paragraph being built; the completed paragraphs come out in order.
\<close>

fun merge_loop :: "nat \<Rightarrow> pystr \<Rightarrow> pystr list \<Rightarrow> pystr list" where
  "merge_loop min_length current_paragraph [] =
     (if current_paragraph \<noteq> [] then [current_paragraph] else [])"
| "merge_loop min_length current_paragraph (paragraph # rest) =
     (let next_paragraph = strip paragraph
      in if length current_paragraph < min_length
            \<and> \<not> is_heading next_paragraph \<and> \<not> is_list_item next_paragraph
         then merge_loop min_length (current_paragraph @ [32] @ next_paragraph) rest
         else (if current_paragraph \<noteq> [] then [current_paragraph] else [])
                @ merge_loop min_length next_paragraph rest)"

definition merge_short_paragraphs :: "pystr list \<Rightarrow> nat \<Rightarrow> pystr list" where
  "merge_short_paragraphs paragraphs min_length =
     (case paragraphs of
        [] \<Rightarrow> []
      | first # rest \<Rightarrow> merge_loop min_length (strip first) rest)"

text \<open>
  \<open>_force_split\<close>: the windows \<open>text[i:i + max_length]\<close> for \<open>i\<close> in
  \<open>range(0, len(text), max_length)\<close>.  A step of 0 raises \<open>ValueError\<close> and a negative
  step gives the empty range.
\<close>

definition range_from_zero :: "nat \<Rightarrow> int \<Rightarrow> exn + nat list" where
  "range_from_zero stop step =
     (if step = 0 then Inl (Exn ''ValueError'' (ascii ''range() arg 3 must not be zero''))
      else if step < 0 then Inr []
      else Inr (map (\<lambda>k. k * nat step) [0..<(stop + nat step - 1) div nat step]))"

definition force_split :: "pystr \<Rightarrow> int \<Rightarrow> exn + pystr list" where
  "force_split text max_length =
     (case range_from_zero (length text) max_length of
        Inl e \<Rightarrow> Inl e
      | Inr starts \<Rightarrow>
          Inr (filter (\<lambda>chunk. chunk \<noteq> [])
                 (map (\<lambda>i. take (nat max_length) (drop i text)) starts)))"

text \<open>
  \<open>_add_overlap\<close>: every chunk after the first gets the end of the chunk before it and a
  space in front.
\<close>

definition add_overlap :: "pystr list \<Rightarrow> int \<Rightarrow> pystr list" where
  "add_overlap chunks overlap =
     (if overlap \<le> 0 \<or> length chunks \<le> 1 then chunks
      else
        hd chunks #
        map (\<lambda>i. let previous = chunks ! (i - 1);
                     prev_chunk_end = (if overlap < int (length previous)
                                       then drop (length previous - nat overlap) previous
                                       else previous)
                 in prev_chunk_end @ [32] @ chunks ! i)
          [1..<length chunks])"

text \<open>
  \<open>_split_long_paragraph\<close>.  The first loop joins \<open>sentences[i]\<close> and
  \<open>sentences[i + 1]\<close> for \<open>i\<close> in \<open>range(0, len(sentences) - 1, 2)\<close>; the second packs
  the sentences into chunks, with the chunks completed so far and the chunk being built.
\<close>

definition combine_sentences :: "pystr list \<Rightarrow> pystr list" where
  "combine_sentences sentences =
     map (\<lambda>i. if i + 1 < length sentences
              then strip (sentences ! i @ sentences ! (i + 1))
              else strip (sentences ! i))
       (filter even [0..<length sentences - 1])"

fun pack_sentences :: "splitter \<Rightarrow> pystr list \<Rightarrow> pystr list \<Rightarrow> pystr \<Rightarrow> exn + pystr list" where
  "pack_sentences cfg [] chunks current_chunk =
     Inr (if current_chunk \<noteq> [] then chunks @ [strip current_chunk] else chunks)"
| "pack_sentences cfg (sentence # rest) chunks current_chunk =
     (if sentence = [] then pack_sentences cfg rest chunks current_chunk
      else if int (length current_chunk) + int (length sentence) \<le> chunk_size cfg
      then pack_sentences cfg rest chunks (current_chunk @ sentence)
      else
        let chunks' = (if current_chunk \<noteq> [] then chunks @ [strip current_chunk] else chunks)
        in if chunk_size cfg < int (length sentence)
           then (case force_split sentence (chunk_size cfg) of
                   Inl e \<Rightarrow> Inl e
                 | Inr sub_chunks \<Rightarrow> pack_sentences cfg rest (chunks' @ sub_chunks) [])
           else pack_sentences cfg rest chunks' sentence)"

definition split_long_paragraph :: "splitter \<Rightarrow> pystr \<Rightarrow> exn + pystr list" where
  "split_long_paragraph cfg paragraph =
     (let sentences = re_split match_terminator True [] paragraph;
          combined_sentences = combine_sentences sentences
      in case pack_sentences cfg combined_sentences [] [] of
           Inl e \<Rightarrow> Inl e
         | Inr chunks \<Rightarrow>
             Inr (if 0 < chunk_overlap cfg then add_overlap chunks (chunk_overlap cfg)
                  else chunks))"

text \<open>\<open>split_text\<close>: the loop over the merged paragraphs, then the final filter.\<close>

fun chunk_paragraphs :: "splitter \<Rightarrow> pystr list \<Rightarrow> exn + pystr list" where
  "chunk_paragraphs cfg [] = Inr []"
| "chunk_paragraphs cfg (paragraph # rest) =
     (if int (length paragraph) \<le> chunk_size cfg
      then (case chunk_paragraphs cfg rest of
              Inl e \<Rightarrow> Inl e
            | Inr final_chunks \<Rightarrow> Inr (strip paragraph # final_chunks))
      else (case split_long_paragraph cfg paragraph of
              Inl e \<Rightarrow> Inl e
            | Inr sub_chunks \<Rightarrow>
                (case chunk_paragraphs cfg rest of
                   Inl e \<Rightarrow> Inl e
                 | Inr final_chunks \<Rightarrow> Inr (sub_chunks @ final_chunks))))"

definition split_text :: "splitter \<Rightarrow> pystr \<Rightarrow> exn + pystr list" where
  "split_text cfg text =
     (if text = [] then Inr []
      else
        let cleaned_text = preprocess_text text;
            paragraphs = re_split match_paragraph_break False [] cleaned_text;
            merged_paragraphs = merge_short_paragraphs paragraphs 50
        in case chunk_paragraphs cfg merged_paragraphs of
             Inl e \<Rightarrow> Inl e
           | Inr final_chunks \<Rightarrow>
               Inr (filter (\<lambda>chunk. chunk \<noteq> [] \<and> 20 < length (strip chunk)) final_chunks))"

text \<open>
  The filter as the specification words it: of the hits, in order, those whose
  similarity \<open>1 - distance\<close> reaches the threshold.
\<close>

definition spec_keep ::
  "rat \<Rightarrow> pystr list \<Rightarrow> metadata list \<Rightarrow> rat list \<Rightarrow> (pystr \<times> metadata \<times> rat) list" where
  "spec_keep threshold docs metas dists =
     filter (\<lambda>(doc, meta, distance). threshold \<le> 1 - distance) (zip docs (zip metas dists))"




text \<open>
  An index search returning three hits, the first two from the same source document, and
  a query encoder that fails.
\<close>

definition hit_meta :: "string \<Rightarrow> metadata" where
  "hit_meta doc_id = [key_id \<mapsto> ascii doc_id, key_department \<mapsto> ascii ''cardiology'']"

definition example_results :: search_results where
  "example_results =
     \<lparr>ids = [ascii ''a_0'', ascii ''a_1'', ascii ''b_0''],
      documents = [ascii ''salt'', ascii ''potassium'', ascii ''fat''],
      metadatas = [hit_meta ''doc_a'', hit_meta ''doc_a'', hit_meta ''doc_b''],
      distances = [1 / 10, 2 / 10, 3 / 10]\<rparr>"

definition example_env :: "rat \<Rightarrow> exn + unit \<Rightarrow> chat_env" where
  "example_env threshold encoded =
     \<lparr>similarity_threshold = threshold,
      search = Inr (Some example_results),
      encode_single = encoded,
      generate_answer = concat,
      generate_similar_queries = (\<lambda>docs. [])\<rparr>"



definition rejecting_loads :: json_loads where
  "rejecting_loads text = Inl (Exn ''JSONDecodeError'' (ascii ''Expecting value''))"

text \<open>
  Inputs for the splitter: two sentences of 51 and 500 characters; scenario A of the
  specification (21 code points); two paragraphs of 10 and 9 letters; two letters with
  twenty spaces between them.
\<close>

definition overlong_input :: pystr where
  "overlong_input = replicate 50 97 @ [12290] @ replicate 499 98 @ [12290]"

definition scenario_A :: pystr where
  "scenario_A = [39640, 34880, 21387, 24739, 32773, 24212, 35813, 25511, 21046, 38048, 30416,
      25668, 20837, 44, 27599, 26085, 19981, 36229, 36807, 53, 103]"

definition two_short :: pystr where
  "two_short = [97, 97, 97, 97, 97, 97, 97, 97, 97, 97, 10, 10, 98, 98, 98, 98, 98, 98, 98, 98, 98]"

definition padded_short :: pystr where
  "padded_short = [97, 32, 32, 32, 32, 32, 32, 32, 32, 32, 32, 32, 32, 32, 32, 32, 32, 32, 32, 32, 32, 98]"

section \<open>Properties\<close>

subsection \<open>Evaluation metrics\<close>

lemma relevant_count_le_retrieved: "card (set xs \<inter> set ys) \<le> length xs"
  by (meson List.finite_set card_length card_mono inf_le1 le_trans)

lemma relevant_count_le_truth: "card (set xs \<inter> set ys) \<le> length ys"
  by (meson List.finite_set card_length card_mono inf_le2 le_trans)

lemma spec_precision_range: "0 \<le> spec_precision xs ys \<and> spec_precision xs ys \<le> 1"
  using relevant_count_le_retrieved [of xs ys]
  by (auto simp: spec_precision_def divide_le_eq)

lemma spec_recall_range: "0 \<le> spec_recall xs ys \<and> spec_recall xs ys \<le> 1"
  using relevant_count_le_truth [of xs ys]
  by (auto simp: spec_recall_def divide_le_eq)

lemma spec_f1_bounds:
  assumes "0 \<le> p" "p \<le> 1" "0 \<le> r" "r \<le> 1"
  shows "0 \<le> spec_f1 p r \<and> spec_f1 p r \<le> 1"
proof (cases "p + r = 0")
  case True
  then show ?thesis by (simp add: spec_f1_def)
next
  case False
  with assms have pos: "0 < p + r" by linarith
  have "p * r \<le> p * 1" using assms by (intro mult_left_mono) auto
  moreover have "p * r \<le> 1 * r" using assms by (intro mult_right_mono) auto
  ultimately have "2 * p * r \<le> p + r" by simp
  then have "2 * p * r / (p + r) \<le> 1" using pos by (simp add: divide_le_eq)
  moreover have "0 \<le> 2 * p * r / (p + r)" using assms pos by simp
  ultimately show ?thesis using False by (simp add: spec_f1_def)
qed

lemma spec_f1_zero_iff:
  assumes "0 \<le> p" "0 \<le> r" "p = 0 \<longleftrightarrow> r = 0"
  shows "spec_f1 p r = 0 \<longleftrightarrow> p = 0 \<and> r = 0"
  using assms by (auto simp: spec_f1_def)

text \<open>
  Whatever the two lists, the metrics returned are two ratios in the unit interval that
  vanish together, and their harmonic mean.
\<close>

lemma calculate_metrics_shape:
  "\<exists>p r. calculate_metrics xs ys = (p, r, spec_f1 p r)
          \<and> 0 \<le> p \<and> p \<le> 1 \<and> 0 \<le> r \<and> r \<le> 1 \<and> (p = 0 \<longleftrightarrow> r = 0)"
proof (cases "xs = [] \<or> ys = []")
  case True
  then have "calculate_metrics xs ys = (0, 0, spec_f1 0 0)"
    by (auto simp: calculate_metrics_def spec_f1_def)
  then show ?thesis by force
next
  case False
  then have eq: "calculate_metrics xs ys =
      (spec_precision xs ys, spec_recall xs ys, spec_f1 (spec_precision xs ys) (spec_recall xs ys))"
    by (simp add: calculate_metrics_def spec_precision_def spec_recall_def spec_f1_def Let_def)
  have "spec_precision xs ys = 0 \<longleftrightarrow> spec_recall xs ys = 0"
    using False by (simp add: spec_precision_def spec_recall_def)
  with eq spec_precision_range [of xs ys] spec_recall_range [of xs ys] show ?thesis
    by blast
qed

text \<open>
  C4: precision, recall and F1 are the size of the set intersection over the length of
  the retrieved list (duplicates included), the same size over the length of the
  ground-truth list, and their harmonic mean, each 0 where its denominator would be 0.
\<close>

theorem calculate_metrics_formulas:
  "calculate_metrics retrieved groundTruth =
     (spec_precision retrieved groundTruth,
      spec_recall retrieved groundTruth,
      spec_f1 (spec_precision retrieved groundTruth) (spec_recall retrieved groundTruth))"
  by (simp add: calculate_metrics_def spec_precision_def spec_recall_def spec_f1_def Let_def)

text \<open>
  The formulas at the retrieved list \<open>d1, d1, d2\<close> with ground truth \<open>d1\<close>: the
  duplicate counts once above the line and twice below it.
\<close>

theorem calculate_metrics_formulas_witness:
  "calculate_metrics [ascii ''d1'', ascii ''d1'', ascii ''d2''] [ascii ''d1''] = (1 / 3, 1, 1 / 2)"
  using calculate_metrics_formulas [of "[ascii ''d1'', ascii ''d1'', ascii ''d2'']" "[ascii ''d1'']"]
  by (simp add: spec_precision_def spec_recall_def spec_f1_def ascii_def)

text \<open>
  C7: the F1 value lies between 0 and 1, and it is 0 exactly when precision and recall
  are both 0.
\<close>

theorem f1_range_and_zero:
  "(case calculate_metrics retrieved groundTruth of
      (p, r, f1) \<Rightarrow> 0 \<le> f1 \<and> f1 \<le> 1 \<and> (f1 = 0 \<longleftrightarrow> p = 0 \<and> r = 0))"
proof -
  obtain p r where eq: "calculate_metrics retrieved groundTruth = (p, r, spec_f1 p r)"
    and range: "0 \<le> p" "p \<le> 1" "0 \<le> r" "r \<le> 1" and together: "p = 0 \<longleftrightarrow> r = 0"
    using calculate_metrics_shape [of retrieved groundTruth] by blast
  from spec_f1_bounds [OF range] spec_f1_zero_iff [OF range(1) range(3) together] eq
  show ?thesis by simp
qed

text \<open>Scenario C of the specification: three retrieved documents, one of them relevant.\<close>

theorem f1_range_and_zero_witness:
  "calculate_metrics [ascii ''d1'', ascii ''d2'', ascii ''d3''] [ascii ''d2'', ascii ''d4'']
     = (1 / 3, 1 / 2, 2 / 5)
   \<and> (0::rat) \<le> 2 / 5 \<and> (2 / 5 :: rat) \<le> 1"
  using f1_range_and_zero [of "[ascii ''d1'', ascii ''d2'', ascii ''d3'']"
                              "[ascii ''d2'', ascii ''d4'']"]
  by (simp add: calculate_metrics_def Let_def ascii_def)

subsection \<open>Confidence, filtering and citations\<close>

lemma py_min_eq_Min: "ds \<noteq> [] \<Longrightarrow> py_min ds = Min (set ds)"
proof (cases ds)
  case Nil
  then show "ds \<noteq> [] \<Longrightarrow> ?thesis" by simp
next
  case (Cons a list)
  then show ?thesis
    using Min.set_eq_fold [of a list] by (simp add: py_min_def)
qed

lemma confidence_formula_aux:
  assumes "ds \<noteq> []" and "\<forall>d\<in>set ds. 0 \<le> d"
  shows "calculate_confidence ds = spec_confidence ds"
proof -
  have "Min (set ds) \<in> set ds"
    using assms(1) by (intro Min_in) auto
  then have nonneg: "0 \<le> Min (set ds)" using assms(2) by blast
  have base: "max 0 (1 - m / 2) = clamp (1 - m / 2) 0 1 \<and> clamp (1 - m / 2) 0 1 \<le> 1"
    if "0 \<le> m" for m :: rat
    using that by (simp add: clamp_def min_def max_def)
  show ?thesis
    using assms(1) base [OF nonneg]
    by (simp add: calculate_confidence_def spec_confidence_def spec_bonus_def
                  py_min_eq_Min Let_def)
qed

lemma confidence_scenario: "calculate_confidence [1 / 10, 2 / 10, 9 / 10] = 1"
  by (simp add: calculate_confidence_def py_min_def py_round_def round_half_even_def Let_def)

text \<open>
  C2: on a non-empty list of distances, none of them negative (a distance is a
  non-negative number), the confidence is \<open>round(min(1, base + bonus), 2)\<close> with
  \<open>base = clamp(1 - minDistance / 2, 0, 1)\<close> and a bonus of 0.1 when at least two
  distances are below 0.5; the distances 0.1, 0.2, 0.9 give 1.
\<close>

theorem calculate_confidence_formula:
  "(ds \<noteq> [] \<longrightarrow> (\<forall>d\<in>set ds. 0 \<le> d) \<longrightarrow> calculate_confidence ds = spec_confidence ds)
   \<and> calculate_confidence [1 / 10, 2 / 10, 9 / 10] = 1"
  using confidence_formula_aux [of ds] confidence_scenario by blast

text \<open>The single distance 0.3: base 0.85, no bonus.\<close>

theorem calculate_confidence_formula_witness:
  "[3 / 10 :: rat] \<noteq> [] \<and> (0 :: rat) \<le> 3 / 10
   \<and> calculate_confidence [3 / 10] = spec_confidence [3 / 10]
   \<and> spec_confidence [3 / 10] = 17 / 20"
  using calculate_confidence_formula [of "[3 / 10]"]
  by (simp add: spec_confidence_def spec_bonus_def clamp_def py_round_def round_half_even_def Let_def)

lemma filter_hits_spec:
  "filter_hits t docs metas dists =
     (map fst (spec_keep t docs metas dists),
      map (fst \<circ> snd) (spec_keep t docs metas dists),
      map (snd \<circ> snd) (spec_keep t docs metas dists))"
  by (induction t docs metas dists rule: filter_hits.induct)
     (simp_all add: spec_keep_def Let_def split: prod.splits)

lemma medical_chat_no_hit:
  assumes "search env = Inr None
           \<or> (\<exists>r. search env = Inr (Some r)
                  \<and> spec_keep (similarity_threshold env) (documents r) (metadatas r) (distances r) = [])"
  shows "\<exists>resp. medical_chat env n = Inr resp \<and> references resp = [] \<and> confidence resp = 0"
  using assms
proof (elim disjE exE conjE)
  assume "search env = Inr None"
  then show ?thesis by (simp add: medical_chat_def)
next
  fix r
  assume s: "search env = Inr (Some r)"
    and k: "spec_keep (similarity_threshold env) (documents r) (metadatas r) (distances r) = []"
  have "filter_hits (similarity_threshold env) (documents r) (metadatas r) (distances r) = ([], [], [])"
    by (simp add: filter_hits_spec k)
  with s show ?thesis by (simp add: medical_chat_def)
qed

text \<open>
  C6: the three filtered lists are the hits with \<open>1 - distance\<close> at least the threshold,
  in their input order; and when the search returns nothing or no hit passes, the handler
  returns a response with no references and confidence 0, not an error.
\<close>

theorem scorer_filter_and_empty_result:
  "filter_hits t docs metas dists =
     (map fst (spec_keep t docs metas dists),
      map (fst \<circ> snd) (spec_keep t docs metas dists),
      map (snd \<circ> snd) (spec_keep t docs metas dists))
   \<and> (search env = Inr None
        \<or> (\<exists>r. search env = Inr (Some r)
               \<and> (documents r = []
                  \<or> spec_keep (similarity_threshold env) (documents r) (metadatas r) (distances r) = []))
      \<longrightarrow> (\<exists>resp. medical_chat env n = Inr resp \<and> references resp = [] \<and> confidence resp = 0))
   \<and> calculate_confidence [] = 0"
proof (intro conjI impI)
  show "calculate_confidence [] = 0" by (simp add: calculate_confidence_def)
next
  assume "search env = Inr None
        \<or> (\<exists>r. search env = Inr (Some r)
               \<and> (documents r = []
                  \<or> spec_keep (similarity_threshold env) (documents r) (metadatas r) (distances r) = []))"
  then have "search env = Inr None
           \<or> (\<exists>r. search env = Inr (Some r)
                  \<and> spec_keep (similarity_threshold env) (documents r) (metadatas r) (distances r) = [])"
    by (auto simp: spec_keep_def)
  then show "\<exists>resp. medical_chat env n = Inr resp \<and> references resp = [] \<and> confidence resp = 0"
    by (rule medical_chat_no_hit)
qed (rule filter_hits_spec)

lemma example_keep_none:
  "spec_keep (19 / 20) (documents example_results) (metadatas example_results) (distances example_results) = []"
  by (simp add: spec_keep_def example_results_def)

text \<open>
  With a threshold of 0.95 none of the three example hits passes, and the response is
  the empty one even though encoding the query would raise.
\<close>

theorem scorer_filter_and_empty_result_witness:
  "search (example_env (19 / 20) (Inl (Exn ''RuntimeError'' []))) = Inr (Some example_results)
   \<and> spec_keep (19 / 20) (documents example_results) (metadatas example_results)
        (distances example_results) = []
   \<and> (\<exists>resp. medical_chat (example_env (19 / 20) (Inl (Exn ''RuntimeError'' []))) 5 = Inr resp
          \<and> references resp = [] \<and> confidence resp = 0)"
  using scorer_filter_and_empty_result
          [of _ _ _ _ "example_env (19 / 20) (Inl (Exn ''RuntimeError'' []))" 5]
        example_keep_none
  by (auto simp add: example_env_def)











subsection \<open>The AI-assisted audit\<close>








text \<open>
  C10: with the bundled \<open>LLMService\<close> as the text generator, the audit returns \<open>N/A\<close>
  and no labels for every query and every document lists, the lookup of
  \<open>_generate_raw_answer\<close> raising \<open>AttributeError\<close>.
\<close>

theorem ai_audit_unavailable_for_LLMService:
  "ai_evaluate LLMService loads q rd gd
     = Inr (JStr not_available,
            JStr (msg_audit_failed @ no_attribute ''LLMService'' ''_generate_raw_answer''),
            JObj [])
   \<and> (\<exists>res. evaluate_retrieval (Some LLMService) loads q rd gd True = Inr res
          \<and> ai_rating res = Some (JStr not_available)
          \<and> ai_relevance_labels res = Some (JObj []))"
proof -
  have "call_generate_raw_answer LLMService p
          = Inl (Exn ''AttributeError'' (no_attribute ''LLMService'' ''_generate_raw_answer''))" for p
    by (simp add: call_generate_raw_answer_def LLMService_def)
  then have eq: "ai_evaluate LLMService loads q rd gd
     = Inr (JStr not_available,
            JStr (msg_audit_failed @ no_attribute ''LLMService'' ''_generate_raw_answer''),
            JObj [])"
    by (simp add: ai_evaluate_def ai_evaluate_body_def)
  then show ?thesis
    by (simp add: evaluate_retrieval_def Let_def split: prod.splits)
qed





text \<open>The same on one query, with the rating spelled out.\<close>

theorem ai_audit_unavailable_for_LLMService_witness:
  "ai_evaluate LLMService rejecting_loads (ascii ''salt'') [ascii ''d1''] [ascii ''d2'']
     = Inr (JStr (ascii ''N/A''),
            JStr (msg_audit_failed @ no_attribute ''LLMService'' ''_generate_raw_answer''),
            JObj [])
   \<and> (\<exists>res. evaluate_retrieval (Some LLMService) rejecting_loads (ascii ''salt'')
                [ascii ''d1''] [ascii ''d2''] True = Inr res
          \<and> ai_rating res = Some (JStr (ascii ''N/A''))
          \<and> ai_relevance_labels res = Some (JObj []))"
  using ai_audit_unavailable_for_LLMService
          [of rejecting_loads "ascii ''salt''" "[ascii ''d1'']" "[ascii ''d2'']"]
  by (simp add: not_available_def)

subsection \<open>The text splitter\<close>

lemma length_strip_le: "length (strip s) \<le> length s"
proof -
  have "length (strip s) \<le> length (dropWhile is_space s)"
    by (simp add: strip_def rstrip_def lstrip_def)
       (metis length_dropWhile_le length_rev)
  also have "\<dots> \<le> length s" by (rule length_dropWhile_le)
  finally show ?thesis .
qed

lemma strip_Nil: "strip [] = []"
  by (simp add: strip_def rstrip_def lstrip_def)

lemma strip_plain:
  assumes "t \<noteq> []" "\<not> is_space (hd t)" "\<not> is_space (last t)"
  shows "strip t = t"
proof -
  have l: "dropWhile is_space t = t"
    using assms(1,2) by (cases t) simp_all
  have "rev t \<noteq> []" "\<not> is_space (hd (rev t))"
    using assms(1,3) by (simp_all add: hd_rev)
  then have "dropWhile is_space (rev t) = rev t"
    by (cases "rev t") simp_all
  with l show ?thesis by (simp add: strip_def rstrip_def lstrip_def)
qed

lemma strip_ends:
  assumes "strip s \<noteq> []"
  shows "\<not> is_space (hd (strip s)) \<and> \<not> is_space (last (strip s))"
proof -
  let ?z = "dropWhile is_space s"
  let ?w = "dropWhile is_space (rev ?z)"
  have w: "?w \<noteq> []" using assms by (simp add: strip_def rstrip_def lstrip_def)
  then have z: "?z \<noteq> []" by (cases ?z) auto
  have "\<not> is_space (hd ?w)" using w by (rule hd_dropWhile)
  then have last: "\<not> is_space (last (rev ?w))" using w by (simp add: last_rev)
  obtain pre where pre: "rev ?z = pre @ ?w"
    by (metis takeWhile_dropWhile_id)
  have "last ?w = last (rev ?z)" using w pre by (metis last_appendR)
  also have "\<dots> = hd ?z" using z by (simp add: last_rev)
  finally have "hd (rev ?w) = hd ?z" using w by (simp add: hd_rev)
  moreover have "\<not> is_space (hd ?z)" using z by (rule hd_dropWhile)
  ultimately show ?thesis using last by (simp add: strip_def rstrip_def lstrip_def)
qed

lemma strip_strip: "strip (strip s) = strip s"
proof (cases "strip s = []")
  case True
  then show ?thesis by (simp add: strip_Nil)
next
  case False
  with strip_ends [OF False] show ?thesis by (intro strip_plain) simp_all
qed

lemma strip_all_space: "\<forall>c\<in>set s. is_space c \<Longrightarrow> strip s = []"
proof -
  assume "\<forall>c\<in>set s. is_space c"
  then have "dropWhile is_space s = []" by simp
  then show ?thesis
    unfolding strip_def rstrip_def lstrip_def by (simp only: rev.simps dropWhile.simps)
qed

lemma re_sub_no_match: "\<not> re_contains m t \<Longrightarrow> re_sub m r t = t"
  by (induction m t rule: re_contains.induct) (auto split: option.splits nat.splits)

lemma re_split_no_match: "\<not> re_contains m t \<Longrightarrow> re_split m cap piece t = [piece @ t]"
  by (induction m t arbitrary: piece rule: re_contains.induct)
     (auto split: option.splits nat.splits)

lemma set_re_sub: "set (re_sub m r t) \<subseteq> set t \<union> set r"
proof (induction m r t rule: re_sub.induct)
  case (1 m repl)
  then show ?case by simp
next
  case (2 m repl c cs)
  show ?case
  proof (cases "m (c # cs)")
    case None
    with 2 show ?thesis by auto
  next
    case (Some n)
    show ?thesis
    proof (cases n)
      case 0
      with Some 2 show ?thesis by auto
    next
      case (Suc k)
      with Some 2 have "set (re_sub m repl (drop k cs)) \<subseteq> set (drop k cs) \<union> set repl" by simp
      moreover have "set (drop k cs) \<subseteq> set cs" by (rule set_drop_subset)
      ultimately show ?thesis using Some Suc by auto
    qed
  qed
qed

lemma match_run_none: "\<forall>c\<in>set t. \<not> cls c \<Longrightarrow> \<not> re_contains (match_run cls n) t"
proof (induction t)
  case Nil
  then show ?case by simp
next
  case (Cons c cs)
  then have "match_run cls n (c # cs) = None" by (simp add: match_run_def)
  with Cons show ?case by simp
qed

lemma match_page_number_none: "10 \<notin> set t \<Longrightarrow> \<not> re_contains match_page_number t"
proof (induction t)
  case Nil
  then show ?case by simp
next
  case (Cons c cs)
  then have "match_page_number (c # cs) = None" by (simp add: match_page_number_def)
  with Cons show ?case by simp
qed

lemma is_space_simps: "is_space 10" "is_space 32" "is_space 9" "is_space 13"
  by (simp_all add: is_space_def)

lemma preprocess_text_plain:
  assumes "\<forall>c\<in>set t. \<not> is_space c"
  shows "preprocess_text t = t"
proof -
  have b: "re_sub match_blanks [32] t = t"
    unfolding match_blanks_def
    by (intro re_sub_no_match match_run_none) (use assms is_space_simps in auto)
  have n: "re_sub match_newlines3 [10, 10] t = t"
    unfolding match_newlines3_def
    by (intro re_sub_no_match match_run_none) (use assms is_space_simps in auto)
  have r: "filter (\<lambda>c. c \<noteq> 13) t = t"
    using assms is_space_simps by (auto simp: filter_id_conv)
  have p: "re_sub match_page_number [10] t = t"
    by (intro re_sub_no_match match_page_number_none) (use assms is_space_simps in auto)
  have s: "strip t = t"
  proof (cases "t = []")
    case True then show ?thesis by (simp add: strip_Nil)
  next
    case False
    then show ?thesis using assms by (intro strip_plain) simp_all
  qed
  show ?thesis by (simp add: preprocess_text_def b n r p s)
qed

lemma preprocess_text_blank:
  assumes "\<forall>c\<in>set t. is_space c"
  shows "preprocess_text t = []"
proof -
  have "set (re_sub match_page_number [10]
          (filter (\<lambda>c. c \<noteq> 13) (re_sub match_newlines3 [10, 10] (re_sub match_blanks [32] t))))
        \<subseteq> set t \<union> {10, 32}"
    using set_re_sub [of match_page_number "[10]"
            "filter (\<lambda>c. c \<noteq> 13) (re_sub match_newlines3 [10, 10] (re_sub match_blanks [32] t))"]
          set_re_sub [of match_newlines3 "[10, 10]" "re_sub match_blanks [32] t"]
          set_re_sub [of match_blanks "[32]" t]
    by auto
  then have "\<forall>c\<in>set (re_sub match_page_number [10]
          (filter (\<lambda>c. c \<noteq> 13) (re_sub match_newlines3 [10, 10] (re_sub match_blanks [32] t)))).
        is_space c"
    using assms is_space_simps by auto
  then show ?thesis
    by (simp only: preprocess_text_def Let_def strip_all_space)
qed

lemma force_split_bound:
  assumes "0 < m"
  shows "\<exists>subs. force_split s m = Inr subs \<and> (\<forall>c\<in>set subs. int (length c) \<le> m)"
  using assms by (auto simp: force_split_def range_from_zero_def)

lemma pack_sentences_bound:
  assumes "0 < chunk_size cfg"
    and "\<forall>c\<in>set chunks. int (length c) \<le> chunk_size cfg"
    and "int (length current) \<le> chunk_size cfg"
  shows "\<exists>out. pack_sentences cfg ss chunks current = Inr out
            \<and> (\<forall>c\<in>set out. int (length c) \<le> chunk_size cfg)"
  using assms(2,3)
proof (induction ss arbitrary: chunks current)
  case Nil
  have "int (length (strip current)) \<le> chunk_size cfg"
    using Nil(2) length_strip_le [of current] by linarith
  with Nil show ?case by auto
next
  case (Cons s ss)
  have cur: "int (length (strip current)) \<le> chunk_size cfg"
    using Cons.prems(2) length_strip_le [of current] by linarith
  let ?chunks' = "if current \<noteq> [] then chunks @ [strip current] else chunks"
  have chunks': "\<forall>c\<in>set ?chunks'. int (length c) \<le> chunk_size cfg"
    using Cons.prems(1) cur by auto
  consider (empty) "s = []"
    | (fits) "s \<noteq> []" "int (length current) + int (length s) \<le> chunk_size cfg"
    | (long) "s \<noteq> []" "\<not> int (length current) + int (length s) \<le> chunk_size cfg"
             "chunk_size cfg < int (length s)"
    | (fresh) "s \<noteq> []" "\<not> int (length current) + int (length s) \<le> chunk_size cfg"
             "\<not> chunk_size cfg < int (length s)"
    by blast
  then show ?case
  proof cases
    case empty
    with Cons show ?thesis by simp
  next
    case fits
    then have "int (length (current @ s)) \<le> chunk_size cfg" by simp
    from Cons.IH [OF Cons.prems(1) this] fits show ?thesis by simp
  next
    case long
    obtain subs where subs: "force_split s (chunk_size cfg) = Inr subs"
        "\<forall>c\<in>set subs. int (length c) \<le> chunk_size cfg"
      using force_split_bound [OF assms(1)] by blast
    have "\<forall>c\<in>set (?chunks' @ subs). int (length c) \<le> chunk_size cfg"
      using chunks' subs(2) by auto
    moreover have "int (length ([]::pystr)) \<le> chunk_size cfg" using assms(1) by simp
    ultimately obtain out where
      "pack_sentences cfg ss (?chunks' @ subs) [] = Inr out"
      "\<forall>c\<in>set out. int (length c) \<le> chunk_size cfg"
      using Cons.IH by blast
    with long subs(1) show ?thesis by (simp add: Let_def)
  next
    case fresh
    then have "int (length s) \<le> chunk_size cfg" by simp
    from Cons.IH [OF chunks' this] fresh show ?thesis by (simp add: Let_def)
  qed
qed

lemma add_overlap_bound:
  assumes "0 < ov" and "\<forall>c\<in>set chunks. int (length c) \<le> cs"
  shows "\<forall>c\<in>set (add_overlap chunks ov). int (length c) \<le> cs + ov + 1"
proof (cases "length chunks \<le> 1")
  case True
  then show ?thesis using assms by (auto simp: add_overlap_def)
next
  case False
  define joined where "joined = (\<lambda>i.
      let previous = chunks ! (i - 1);
          prev_chunk_end = (if ov < int (length previous)
                            then drop (length previous - nat ov) previous else previous)
      in prev_chunk_end @ [32] @ chunks ! i)"
  have eq: "add_overlap chunks ov = hd chunks # map joined [1..<length chunks]"
    using False assms(1) by (simp add: add_overlap_def joined_def)
  have hd: "int (length (hd chunks)) \<le> cs + ov + 1"
    using False assms by (cases chunks) auto
  have tl: "int (length (joined i)) \<le> cs + ov + 1" if "i < length chunks" for i
  proof -
    have "int (length (chunks ! i)) \<le> cs" using that assms(2) by simp
    moreover have "int (length (if ov < int (length (chunks ! (i - 1)))
                          then drop (length (chunks ! (i - 1)) - nat ov) (chunks ! (i - 1))
                          else chunks ! (i - 1))) \<le> ov"
      using assms(1) by auto
    ultimately show ?thesis by (simp add: joined_def Let_def)
  qed
  show ?thesis
  proof
    fix c
    assume "c \<in> set (add_overlap chunks ov)"
    then consider "c = hd chunks" | i where "i < length chunks" "c = joined i"
      unfolding eq by auto
    then show "int (length c) \<le> cs + ov + 1"
      using hd tl by cases simp_all
  qed
qed

lemma split_long_paragraph_bound:
  assumes "0 < chunk_size cfg" "0 \<le> chunk_overlap cfg"
  shows "\<exists>out. split_long_paragraph cfg p = Inr out
            \<and> (\<forall>c\<in>set out. int (length c) \<le> chunk_size cfg + chunk_overlap cfg + 1)"
proof -
  obtain chunks where chunks:
      "pack_sentences cfg (combine_sentences (re_split match_terminator True [] p)) [] [] = Inr chunks"
      "\<forall>c\<in>set chunks. int (length c) \<le> chunk_size cfg"
    using pack_sentences_bound [OF assms(1), of "[]" "[]"] assms(1) by auto
  show ?thesis
  proof (cases "0 < chunk_overlap cfg")
    case True
    with chunks add_overlap_bound [OF True chunks(2)] show ?thesis
      by (simp add: split_long_paragraph_def)
  next
    case False
    with chunks assms(2) show ?thesis
      by (auto simp: split_long_paragraph_def)
  qed
qed

lemma chunk_paragraphs_bound:
  assumes "0 < chunk_size cfg" "0 \<le> chunk_overlap cfg"
  shows "\<exists>out. chunk_paragraphs cfg ps = Inr out
            \<and> (\<forall>c\<in>set out. int (length c) \<le> chunk_size cfg + chunk_overlap cfg + 1)"
proof (induction ps)
  case Nil
  then show ?case by simp
next
  case (Cons p ps)
  then obtain rest where rest: "chunk_paragraphs cfg ps = Inr rest"
      "\<forall>c\<in>set rest. int (length c) \<le> chunk_size cfg + chunk_overlap cfg + 1"
    by blast
  show ?case
  proof (cases "int (length p) \<le> chunk_size cfg")
    case True
    then have "int (length (strip p)) \<le> chunk_size cfg + chunk_overlap cfg + 1"
      using length_strip_le [of p] assms(2) by linarith
    with True rest show ?thesis by simp
  next
    case False
    obtain sub where "split_long_paragraph cfg p = Inr sub"
        "\<forall>c\<in>set sub. int (length c) \<le> chunk_size cfg + chunk_overlap cfg + 1"
      using split_long_paragraph_bound [OF assms] by blast
    with False rest show ?thesis by auto
  qed
qed

lemma split_text_blank:
  assumes "\<forall>c\<in>set text. is_space c"
  shows "split_text cfg text = Inr []"
proof (cases "text = []")
  case True
  then show ?thesis by (simp add: split_text_def)
next
  case False
  then show ?thesis
    by (simp add: split_text_def preprocess_text_blank [OF assms] merge_short_paragraphs_def
                  strip_Nil)
qed

lemma split_text_single:
  assumes "\<not> re_contains match_paragraph_break (preprocess_text text)"
    and "20 < length (preprocess_text text)"
    and "int (length (preprocess_text text)) \<le> chunk_size cfg"
  shows "split_text cfg text = Inr [preprocess_text text]"
proof -
  let ?n = "preprocess_text text"
  have s: "strip ?n = ?n"
    by (simp add: preprocess_text_def Let_def strip_strip)
  have ne: "?n \<noteq> []" using assms(2) by auto
  have "text \<noteq> []"
  proof
    assume "text = []"
    then have "preprocess_text text = []"
      by (simp add: preprocess_text_def strip_Nil)
    with ne show False by simp
  qed
  moreover have "re_split match_paragraph_break False [] ?n = [?n]"
    using re_split_no_match [OF assms(1), of False "[]"] by simp
  moreover have "merge_short_paragraphs [?n] 50 = [?n]"
    using ne by (simp add: merge_short_paragraphs_def s)
  ultimately show ?thesis
    using assms(2,3) ne by (simp add: split_text_def Let_def s)
qed

lemma match_terminator_Cons:
  "match_terminator (c # cs) = (if is_terminator c then Some 1 else None)"
  by (simp add: match_terminator_def)

lemma match_terminator_none:
  "\<forall>c\<in>set t. \<not> is_terminator c \<Longrightarrow> \<not> re_contains match_terminator t"
proof (induction t)
  case Nil
  then show ?case by simp
next
  case (Cons c cs)
  then have "match_terminator (c # cs) = None" by (simp add: match_terminator_Cons)
  with Cons show ?case by simp
qed

lemma re_split_plain:
  "\<forall>c\<in>set t. \<not> is_terminator c \<Longrightarrow> re_split match_terminator True piece t = [piece @ t]"
  by (rule re_split_no_match) (rule match_terminator_none)

lemma re_split_cut:
  assumes "\<forall>c\<in>set xs. \<not> is_terminator c" and "is_terminator t"
  shows "re_split match_terminator True piece (xs @ t # rest)
           = (piece @ xs) # [t] # re_split match_terminator True [] rest"
  using assms(1)
proof (induction xs arbitrary: piece)
  case Nil
  then show ?case using assms(2) by (simp add: match_terminator_Cons)
next
  case (Cons x xs)
  then have "match_terminator (x # xs @ t # rest) = None" by (simp add: match_terminator_Cons)
  with Cons show ?case by simp
qed

text \<open>The sentences come in pairs followed by one last piece.\<close>

lemma re_split_odd: "odd (length (re_split match_terminator True piece t))"
proof (induction t arbitrary: piece)
  case Nil
  then show ?case by simp
next
  case (Cons c cs)
  then show ?case by (cases "is_terminator c") (simp_all add: match_terminator_Cons)
qed

lemma re_split_append_tail:
  assumes "\<forall>c\<in>set tail. \<not> is_terminator c"
  shows "re_split match_terminator True piece (body @ tail)
           = butlast (re_split match_terminator True piece body)
             @ [last (re_split match_terminator True piece body) @ tail]"
proof (induction body arbitrary: piece)
  case Nil
  then show ?case using re_split_plain [OF assms] by simp
next
  case (Cons c cs)
  have ne: "re_split match_terminator True p cs \<noteq> []" for p
    using re_split_odd [of p cs] by (cases "re_split match_terminator True p cs") simp_all
  show ?case
    using Cons [of "[]"] Cons [of "piece @ [c]"] ne
    by (cases "is_terminator c") (simp_all add: match_terminator_Cons)
qed

lemma combine_sentences_butlast:
  assumes "odd (length ss)"
  shows "combine_sentences (butlast ss @ [l]) = combine_sentences ss"
proof -
  have len: "length (butlast ss @ [l]) = length ss"
    using assms by (cases ss) auto
  have "(if i + 1 < length ss then strip ((butlast ss @ [l]) ! i @ (butlast ss @ [l]) ! (i + 1))
         else strip ((butlast ss @ [l]) ! i))
      = (if i + 1 < length ss then strip (ss ! i @ ss ! (i + 1)) else strip (ss ! i))"
    if "i \<in> set (filter even [0..<length ss - 1])" for i
  proof -
    from that have i: "i < length ss - 1" "even i" by auto
    have "i + 1 \<noteq> length ss - 1"
      using assms i(2) by (cases "length ss") auto
    with i(1) have "i + 1 < length ss - 1" by linarith
    then have "i < length (butlast ss)" "i + 1 < length (butlast ss)" "i + 1 < length ss"
      by simp_all
    then show ?thesis by (simp add: nth_append nth_butlast)
  qed
  then show ?thesis
    unfolding combine_sentences_def len by (intro map_cong refl)
qed

lemma split_long_paragraph_tail:
  assumes "\<forall>c\<in>set tail. \<not> is_terminator c"
  shows "split_long_paragraph cfg (body @ tail) = split_long_paragraph cfg body"
proof -
  let ?ss = "re_split match_terminator True [] body"
  have "combine_sentences (re_split match_terminator True [] (body @ tail))
        = combine_sentences ?ss"
    unfolding re_split_append_tail [OF assms]
    by (rule combine_sentences_butlast) (rule re_split_odd)
  then show ?thesis by (simp add: split_long_paragraph_def)
qed

lemma split_long_paragraph_no_terminator:
  assumes "\<forall>c\<in>set p. \<not> is_terminator c"
  shows "split_long_paragraph cfg p = Inr []"
proof -
  have "split_long_paragraph cfg p = split_long_paragraph cfg []"
    using split_long_paragraph_tail [OF assms, of cfg "[]"] by simp
  also have "\<dots> = Inr []"
    by (simp add: split_long_paragraph_def combine_sentences_def add_overlap_def)
  finally show ?thesis .
qed

lemma split_text_plain:
  assumes "\<forall>c\<in>set t. \<not> is_space c" and "t \<noteq> []"
  shows "split_text cfg t =
     (case chunk_paragraphs cfg [t] of
        Inl e \<Rightarrow> Inl e
      | Inr final_chunks \<Rightarrow>
          Inr (filter (\<lambda>chunk. chunk \<noteq> [] \<and> 20 < length (strip chunk)) final_chunks))"
proof -
  have "\<forall>c\<in>set t. \<not> c = 10" using assms(1) is_space_simps(1) by auto
  then have "\<not> re_contains match_paragraph_break t"
    unfolding match_paragraph_break_def by (rule match_run_none)
  then have split: "re_split match_paragraph_break False [] t = [t]"
    using re_split_no_match [of match_paragraph_break t False "[]"] by simp
  have strip: "strip t = t" using assms by (intro strip_plain) simp_all
  have merge: "merge_short_paragraphs [t] 50 = [t]"
    using assms(2) by (simp add: merge_short_paragraphs_def strip)
  show ?thesis
    using assms(2)
    by (simp only: split_text_def preprocess_text_plain [OF assms(1)] Let_def split merge if_False)
qed

lemma combine_sentences_3: "combine_sentences [a, b, c] = [strip (a @ b)]"
  by (simp add: combine_sentences_def upt_rec)

lemma combine_sentences_5: "combine_sentences [a, b, c, d, e] = [strip (a @ b), strip (c @ d)]"
  by (simp add: combine_sentences_def upt_rec)

lemma not_space_simps: "\<not> is_space 97" "\<not> is_space 98" "\<not> is_space 12290"
  by (simp_all add: is_space_def)

lemma not_terminator_simps: "\<not> is_terminator 97" "\<not> is_terminator 98"
  by (simp_all add: is_terminator_def)

lemma unterminated_text_lost: "split_text default_splitter (replicate 501 97) = Inr []"
proof -
  have long: "\<not> int (length (replicate 501 (97::nat))) \<le> chunk_size default_splitter"
    by (simp add: default_splitter_def)
  have "split_long_paragraph default_splitter (replicate 501 97) = Inr []"
    by (rule split_long_paragraph_no_terminator) (simp add: not_terminator_simps)
  with long have "chunk_paragraphs default_splitter [replicate 501 97] = Inr []"
    by (simp)
  moreover have "split_text default_splitter (replicate 501 97) =
     (case chunk_paragraphs default_splitter [replicate 501 97] of
        Inl e \<Rightarrow> Inl e
      | Inr final_chunks \<Rightarrow>
          Inr (filter (\<lambda>chunk. chunk \<noteq> [] \<and> 20 < length (strip chunk)) final_chunks))"
    by (rule split_text_plain) (simp_all add: not_space_simps)
  ultimately show ?thesis by simp
qed

lemma trailing_text_lost: "split_long_paragraph default_splitter (replicate 300 97 @ [12290] @ replicate 300 98)
   = Inr [replicate 300 97 @ [12290]]"
proof -
  let ?s = "replicate 300 97 @ [12290]"
  have "split_long_paragraph default_splitter (?s @ replicate 300 98)
          = split_long_paragraph default_splitter ?s"
    by (rule split_long_paragraph_tail) (simp add: not_terminator_simps)
  moreover have "re_split match_terminator True [] (replicate 300 97 @ 12290 # [])
          = ([] @ replicate 300 97) # [12290] # re_split match_terminator True [] []"
    by (rule re_split_cut) (simp_all add: is_terminator_def)
  then have "combine_sentences (re_split match_terminator True [] ?s) = [?s]"
    by (simp add: combine_sentences_3 strip_plain not_space_simps)
  then have "split_long_paragraph default_splitter ?s = Inr [?s]"
    by (simp add: split_long_paragraph_def default_splitter_def add_overlap_def strip_plain
                  not_space_simps)
  ultimately show ?thesis by simp
qed

lemma overlong_input_chunks:
  "split_text default_splitter overlong_input
     = Inr [replicate 50 97 @ [12290],
            replicate 49 97 @ [12290, 32] @ replicate 499 98 @ [12290]]"
proof -
  let ?s1 = "replicate 50 97 @ [12290::nat]"
  let ?s2 = "replicate 499 98 @ [12290::nat]"
  let ?c2 = "replicate 49 97 @ [12290, 32] @ replicate 499 98 @ [12290::nat]"
  have t: "overlong_input = ?s1 @ ?s2" by (simp add: overlong_input_def)
  have cut2: "re_split match_terminator True [] (replicate 499 98 @ 12290 # [])
          = ([] @ replicate 499 98) # [12290] # re_split match_terminator True [] []"
    by (rule re_split_cut) (simp_all add: is_terminator_def)
  have cut1: "re_split match_terminator True [] (replicate 50 97 @ 12290 # ?s2)
          = ([] @ replicate 50 97) # [12290] # re_split match_terminator True [] ?s2"
    by (rule re_split_cut) (simp_all add: is_terminator_def)
  have sentences: "re_split match_terminator True [] (?s1 @ ?s2)
          = [replicate 50 97, [12290], replicate 499 98, [12290], []]"
    using cut1 cut2 by simp
  have s1: "strip ?s1 = ?s1" by (rule strip_plain) (simp_all add: not_space_simps)
  have s2: "strip ?s2 = ?s2" by (rule strip_plain) (simp_all add: not_space_simps)
  have c2: "strip ?c2 = ?c2" by (rule strip_plain) (simp_all add: not_space_simps)
  have combined: "combine_sentences (re_split match_terminator True [] (?s1 @ ?s2)) = [?s1, ?s2]"
    unfolding sentences combine_sentences_5 using s1 s2 by simp
  have packed: "pack_sentences default_splitter [?s1, ?s2] [] [] = Inr [?s1, ?s2]"
    using s1 s2 by (simp add: default_splitter_def Let_def)
  have "drop (length ?s1 - nat 50) ?s1 = replicate 49 97 @ [12290]"
    by simp
  then have overlap: "add_overlap [?s1, ?s2] 50 = [?s1, ?c2]"
    by (simp add: add_overlap_def Let_def upt_rec)
  have long: "split_long_paragraph default_splitter (?s1 @ ?s2) = Inr [?s1, ?c2]"
    unfolding split_long_paragraph_def Let_def combined packed
    using overlap by (simp add: default_splitter_def)
  have "\<not> int (length (?s1 @ ?s2)) \<le> chunk_size default_splitter"
    by (simp add: default_splitter_def)
  with long have chunks: "chunk_paragraphs default_splitter [?s1 @ ?s2] = Inr [?s1, ?c2]"
    by simp
  have "split_text default_splitter (?s1 @ ?s2) =
     (case chunk_paragraphs default_splitter [?s1 @ ?s2] of
        Inl e \<Rightarrow> Inl e
      | Inr final_chunks \<Rightarrow>
          Inr (filter (\<lambda>chunk. chunk \<noteq> [] \<and> 20 < length (strip chunk)) final_chunks))"
    by (rule split_text_plain) (auto simp: not_space_simps)
  then have "split_text default_splitter (?s1 @ ?s2) = Inr [?s1, ?c2]"
    unfolding chunks using s1 c2 by simp
  then show ?thesis unfolding t .
qed

lemma scenario_A_preprocess: "preprocess_text scenario_A = scenario_A"
  by (rule preprocess_text_plain) (simp add: scenario_A_def is_space_def)

lemma scenario_A_no_break: "\<not> re_contains match_paragraph_break scenario_A"
  unfolding match_paragraph_break_def
  by (rule match_run_none) (simp add: scenario_A_def)

lemma scenario_A_result: "split_text default_splitter scenario_A = Inr [scenario_A]"
  using split_text_single [of scenario_A default_splitter] scenario_A_no_break
  by (simp add: scenario_A_preprocess) (simp add: scenario_A_def default_splitter_def)

lemma not_digit_b: "\<not> is_digit 98"
  by (simp add: is_digit_def decimal_zeros_def)

lemma two_short_preprocess: "preprocess_text two_short = two_short"
proof -
  have b1: "re_sub match_blanks [32] two_short = two_short"
    unfolding match_blanks_def
    by (intro re_sub_no_match match_run_none) (simp add: two_short_def)
  have b2: "re_sub match_newlines3 [10, 10] two_short = two_short"
    by (rule re_sub_no_match) (simp add: two_short_def match_newlines3_def match_run_def)
  have b3: "filter (\<lambda>c. c \<noteq> 13) two_short = two_short"
    by (simp add: two_short_def)
  have b4: "re_sub match_page_number [10] two_short = two_short"
    by (rule re_sub_no_match) (simp add: two_short_def match_page_number_def is_space_def not_digit_b)
  have b5: "strip two_short = two_short"
    by (rule strip_plain) (simp_all add: two_short_def is_space_def)
  show ?thesis by (simp only: preprocess_text_def Let_def b1 b2 b3 b4 b5)
qed

lemma two_short_split:
  "re_split match_paragraph_break False [] two_short
     = [[97, 97, 97, 97, 97, 97, 97, 97, 97, 97], [98, 98, 98, 98, 98, 98, 98, 98, 98]]"
  by (simp add: two_short_def match_paragraph_break_def match_run_def)

lemma nine_b_plain:
  "strip [98, 98, 98, 98, 98, 98, 98, 98, 98] = [98, 98, 98, 98, 98, 98, 98, 98, 98]"
  "strip [97, 97, 97, 97, 97, 97, 97, 97, 97, 97] = [97, 97, 97, 97, 97, 97, 97, 97, 97, 97]"
  by (rule strip_plain; simp add: is_space_def)+

lemma nine_b_not_heading: "\<not> is_heading [98, 98, 98, 98, 98, 98, 98, 98, 98]"
  by (simp add: is_heading_def nine_b_plain heading_chapter_def heading_numeral_def
        heading_number_def heading_upper_def heading_bracket_def run_then_def
        is_chinese_numeral_def is_upper_def not_digit_b)

lemma nine_b_not_list_item: "\<not> is_list_item [98, 98, 98, 98, 98, 98, 98, 98, 98]"
  by (simp add: is_list_item_def nine_b_plain list_bullet_def list_numbered_def
        list_lettered_def is_space_def not_digit_b starts_with_space_def)

lemma two_short_merge:
  "merge_short_paragraphs
     [[97, 97, 97, 97, 97, 97, 97, 97, 97, 97], [98, 98, 98, 98, 98, 98, 98, 98, 98]] 50
   = [[97, 97, 97, 97, 97, 97, 97, 97, 97, 97, 32, 98, 98, 98, 98, 98, 98, 98, 98, 98]]"
  by (simp add: merge_short_paragraphs_def nine_b_plain nine_b_not_heading nine_b_not_list_item)

lemma two_short_result: "split_text default_splitter two_short = Inr []"
proof -
  have s: "strip [97, 97, 97, 97, 97, 97, 97, 97, 97, 97, 32, 98, 98, 98, 98, 98, 98, 98, 98, 98]
         = [97, 97, 97, 97, 97, 97, 97, 97, 97, 97, 32, 98, 98, 98, 98, 98, 98, 98, 98, 98]"
    by (rule strip_plain) (simp_all add: is_space_def)
  have chunks: "chunk_paragraphs default_splitter
       [[97, 97, 97, 97, 97, 97, 97, 97, 97, 97, 32, 98, 98, 98, 98, 98, 98, 98, 98, 98]]
     = Inr [[97, 97, 97, 97, 97, 97, 97, 97, 97, 97, 32, 98, 98, 98, 98, 98, 98, 98, 98, 98]]"
    by (simp add: default_splitter_def s)
  have "two_short \<noteq> []" by (simp add: two_short_def)
  then have "split_text default_splitter two_short
      = Inr (filter (\<lambda>chunk. chunk \<noteq> [] \<and> 20 < length (strip chunk))
          [[97, 97, 97, 97, 97, 97, 97, 97, 97, 97, 32, 98, 98, 98, 98, 98, 98, 98, 98, 98]])"
    by (simp only: split_text_def two_short_preprocess Let_def two_short_split two_short_merge
                   chunks if_False sum.case)
  then show ?thesis by (simp add: s)
qed

lemma padded_short_preprocess: "preprocess_text padded_short = [97, 32, 98]"
proof -
  have b1: "re_sub match_blanks [32] padded_short = [97, 32, 98]"
    by (simp add: padded_short_def match_blanks_def match_run_def)
  have b2: "re_sub match_newlines3 [10, 10] [97, 32, 98] = [97, 32, 98]"
    by (simp add: match_newlines3_def match_run_def)
  have b4: "re_sub match_page_number [10] [97, 32, 98] = [97, 32, 98]"
    by (simp add: match_page_number_def)
  have b3: "filter (\<lambda>c. c \<noteq> 13) [97, 32, 98] = [97, 32, 98::nat]"
    by simp
  have b5: "strip [97, 32, 98] = [97, 32, 98]"
    by (rule strip_plain) (simp_all add: is_space_def)
  show ?thesis by (simp only: preprocess_text_def Let_def b1 b2 b3 b4 b5)
qed

lemma padded_short_result: "split_text default_splitter padded_short = Inr []"
proof -
  have s: "strip [97, 32, 98] = [97, 32, 98]"
    by (rule strip_plain) (simp_all add: is_space_def)
  have split: "re_split match_paragraph_break False [] [97, 32, 98] = [[97, 32, 98]]"
    by (simp add: match_paragraph_break_def match_run_def)
  have merge: "merge_short_paragraphs [[97, 32, 98]] 50 = [[97, 32, 98]]"
    by (simp add: merge_short_paragraphs_def s)
  have chunks: "chunk_paragraphs default_splitter [[97, 32, 98]] = Inr [[97, 32, 98]]"
    by (simp add: default_splitter_def s)
  have "padded_short \<noteq> []" by (simp add: padded_short_def)
  then have "split_text default_splitter padded_short
      = Inr (filter (\<lambda>chunk. chunk \<noteq> [] \<and> 20 < length (strip chunk)) [[97, 32, 98]])"
    by (simp only: split_text_def padded_short_preprocess Let_def split merge chunks if_False
                   sum.case)
  then show ?thesis by (simp add: s)
qed

text \<open>
  C1, as the code has it: with a positive chunk size and a non-negative overlap the
  splitter returns, and every chunk is non-empty, has a trimmed length above 20 and a
  length of at most \<open>chunk_size + chunk_overlap + 1\<close>, the overlap being joined to its
  chunk by one space.
\<close>

theorem split_text_chunk_bounds:
  assumes "0 < chunk_size cfg" and "0 \<le> chunk_overlap cfg"
  shows "\<exists>chunks. split_text cfg input = Inr chunks
           \<and> (\<forall>c\<in>set chunks. c \<noteq> [] \<and> 20 < length (strip c)
                  \<and> int (length c) \<le> chunk_size cfg + chunk_overlap cfg + 1)"
proof (cases "input = []")
  case True
  then show ?thesis by (simp add: split_text_def)
next
  case False
  obtain out where "chunk_paragraphs cfg (merge_short_paragraphs
        (re_split match_paragraph_break False [] (preprocess_text input)) 50) = Inr out"
      "\<forall>c\<in>set out. int (length c) \<le> chunk_size cfg + chunk_overlap cfg + 1"
    using chunk_paragraphs_bound [OF assms] by blast
  with False show ?thesis by (simp add: split_text_def Let_def)
qed

text \<open>The bound at the default splitter and the two-sentence input.\<close>

theorem split_text_chunk_bounds_witness:
  "0 < chunk_size default_splitter \<and> 0 \<le> chunk_overlap default_splitter
   \<and> (\<exists>chunks. split_text default_splitter overlong_input = Inr chunks
          \<and> (\<forall>c\<in>set chunks. c \<noteq> [] \<and> 20 < length (strip c) \<and> int (length c) \<le> 551))"
  using split_text_chunk_bounds [of default_splitter overlong_input]
  by (simp add: default_splitter_def)

text \<open>
  C1, as the claim states it, fails: on a sentence of 51 characters followed by one of
  500 the default splitter returns a second chunk of 551 characters, one more than
  \<open>chunk_size + chunk_overlap\<close>.
\<close>

theorem split_text_chunk_over_550:
  "split_text default_splitter overlong_input
     = Inr [replicate 50 97 @ [12290],
            replicate 49 97 @ [12290, 32] @ replicate 499 98 @ [12290]]
   \<and> length (replicate 49 97 @ [12290, 32] @ replicate 499 98 @ [12290 :: nat]) = 551
   \<and> chunk_size default_splitter + chunk_overlap default_splitter = 550"
  using overlong_input_chunks by (simp add: default_splitter_def)

text \<open>
  C3: the text after the last sentence terminator of a long paragraph is lost.  A text of
  501 letters without a terminator gives no chunk at all, and of 300 letters, a full stop
  and 300 more letters only the first sentence is returned.
\<close>

theorem split_long_paragraph_loses_text:
  "split_text default_splitter (replicate 501 97) = Inr []
   \<and> split_long_paragraph default_splitter (replicate 300 97 @ [12290] @ replicate 300 98)
       = Inr [replicate 300 97 @ [12290]]"
  using unterminated_text_lost trailing_text_lost by simp

text \<open>
  C8, as the code has it: an empty or blank input gives no chunk; an input whose
  normalised text has no paragraph break, more than 20 characters and at most
  \<open>chunk_size\<close> gives that text as its only chunk; scenario A is such an input.
\<close>

theorem split_text_blank_or_single:
  "((\<forall>c\<in>set input. is_space c) \<longrightarrow> split_text cfg input = Inr [])
   \<and> (\<not> re_contains match_paragraph_break (preprocess_text input) \<longrightarrow>
        20 < length (preprocess_text input) \<longrightarrow>
        int (length (preprocess_text input)) \<le> chunk_size cfg \<longrightarrow>
        split_text cfg input = Inr [preprocess_text input])
   \<and> split_text default_splitter scenario_A = Inr [scenario_A]"
  using split_text_blank [of input cfg] split_text_single [of input cfg] scenario_A_result
  by blast

text \<open>A blank input of a space, a newline and a tab, and scenario A.\<close>

theorem split_text_blank_or_single_witness:
  "is_space 32 \<and> is_space 10 \<and> is_space 9
   \<and> split_text default_splitter [32, 10, 9] = Inr []
   \<and> preprocess_text scenario_A = scenario_A
   \<and> \<not> re_contains match_paragraph_break scenario_A
   \<and> length scenario_A = 21 \<and> chunk_size default_splitter = 500
   \<and> split_text default_splitter scenario_A = Inr [scenario_A]"
  using split_text_blank_or_single [of "[32, 10, 9]" default_splitter]
        split_text_blank_or_single [of scenario_A default_splitter]
        scenario_A_preprocess scenario_A_no_break is_space_simps
  by (simp add: default_splitter_def) (simp add: scenario_A_def)

text \<open>
  C8, as the claim states it, fails on two inputs of 21 and 22 characters: two short
  paragraphs are merged with a space into 20 characters and dropped, and two letters
  with twenty spaces between them are normalised to three characters and dropped.
\<close>

theorem split_text_short_inputs_dropped:
  "length two_short = 21 \<and> preprocess_text two_short = two_short
   \<and> split_text default_splitter two_short = Inr []
   \<and> length padded_short = 22 \<and> preprocess_text padded_short = [97, 32, 98]
   \<and> split_text default_splitter padded_short = Inr []"
  using two_short_preprocess two_short_result padded_short_preprocess padded_short_result
  by (simp add: two_short_def padded_short_def)

end
